theory Spec2Isabelle
  imports Main "HOL-Library.Log_Nat"
begin

section \<open>Python and numpy values used by \<^verbatim>\<open>TTtensors.py\<close>\<close>

text \<open>
  Exceptions are values. \<open>IndexError\<close> is raised by list, tuple and array indexing,
  \<open>ValueError\<close> by \<^verbatim>\<open>np.reshape\<close> when the sizes differ, \<open>UnboundLocalError\<close> by reading
  a local variable that was never assigned. \<open>UtilError\<close> stands for whatever the two
  primitives of the module \<^verbatim>\<open>Util\<close> raise themselves.
\<close>

datatype error = IndexError | ValueError | UnboundLocalError | UtilError string

text \<open>
  Indexing a sequence of length \<open>n\<close> with a Python integer: \<open>0 .. n-1\<close> count from the
  front, \<open>-n .. -1\<close> from the back, everything else raises \<open>IndexError\<close>.
\<close>

definition norm_index :: "nat \<Rightarrow> int \<Rightarrow> error + nat" where
  "norm_index n i =
     (if 0 \<le> i \<and> i < int n then Inr (nat i)
      else if - int n \<le> i \<and> i < 0 then Inr (nat (i + int n))
      else Inl IndexError)"

definition py_index :: "'x list \<Rightarrow> int \<Rightarrow> error + 'x" where
  "py_index xs i = (case norm_index (length xs) i of Inl e \<Rightarrow> Inl e | Inr j \<Rightarrow> Inr (xs ! j))"

definition py_setitem :: "'x list \<Rightarrow> int \<Rightarrow> 'x \<Rightarrow> error + 'x list" where
  "py_setitem xs i v =
     (case norm_index (length xs) i of Inl e \<Rightarrow> Inl e | Inr j \<Rightarrow> Inr (xs[j := v]))"

text \<open>
  \<^verbatim>\<open>range(n)\<close> and \<^verbatim>\<open>range(a, b, -1)\<close>, the two forms the source uses: \<open>0, 1, .., n-1\<close>
  and \<open>a, a-1, .., b+1\<close>.
\<close>

definition py_range :: "int \<Rightarrow> int list" where
  "py_range n = map int [0..<nat n]"

definition py_range_down :: "int \<Rightarrow> int \<Rightarrow> int list" where
  "py_range_down a b = rev [b + 1..a]"

text \<open>
  \<^verbatim>\<open>"%d" % k\<close>: the decimal digits of \<open>k\<close>, most significant first, with a minus sign for
  a negative \<open>k\<close>.
\<close>

fun dec_digits :: "nat \<Rightarrow> string" where
  "dec_digits n =
     (if n < 10 then [''0123456789'' ! n]
      else dec_digits (n div 10) @ [''0123456789'' ! (n mod 10)])"

declare dec_digits.simps [simp del]

definition fmt_d :: "int \<Rightarrow> string" where
  "fmt_d k = (if k < 0 then CHR ''-'' # dec_digits (nat (- k)) else dec_digits (nat k))"

text \<open>
  A numpy array: its shape and its entries in row-major (C) index order, which is the
  order \<^verbatim>\<open>np.reshape\<close> reads and writes. The entries are never computed with by this
  module, so their type is a parameter. An array is well formed when it has as many
  entries as its shape says.
\<close>

record 'a ndarray =
  nd_shape :: "nat list"
  nd_data :: "'a list"

definition nd_wf :: "'a ndarray \<Rightarrow> bool" where
  "nd_wf A = (length (nd_data A) = prod_list (nd_shape A))"

text \<open>
  \<^verbatim>\<open>np.reshape(A, newshape)\<close> with a shape of non-negative entries: the same entries in the
  same order under the new shape, \<open>ValueError\<close> when the sizes differ.
\<close>

definition np_reshape :: "'a ndarray \<Rightarrow> nat list \<Rightarrow> error + 'a ndarray" where
  "np_reshape A newshape =
     (if prod_list newshape = prod_list (nd_shape A)
      then Inr \<lparr>nd_shape = newshape, nd_data = nd_data A\<rparr>
      else Inl ValueError)"

text \<open>
  \<^verbatim>\<open>A.transpose()\<close> reverses the axes: the entry at multi-index \<open>(i\<^sub>1, .., i\<^sub>n)\<close> of the
  result is the entry at \<open>(i\<^sub>n, .., i\<^sub>1)\<close> of \<open>A\<close>. \<open>unravel\<close> and \<open>ravel\<close> convert between
  a row-major position and a multi-index.
\<close>

fun unravel :: "nat list \<Rightarrow> nat \<Rightarrow> nat list" where
  "unravel [] j = []"
| "unravel (n # ns) j = (j div prod_list ns) # unravel ns (j mod prod_list ns)"

fun ravel :: "nat list \<Rightarrow> nat list \<Rightarrow> nat" where
  "ravel (n # ns) (i # is) = i * prod_list ns + ravel ns is"
| "ravel _ _ = 0"

definition np_transpose :: "'a ndarray \<Rightarrow> 'a ndarray" where
  "np_transpose A =
     \<lparr>nd_shape = rev (nd_shape A),
      nd_data = map (\<lambda>j. nd_data A ! ravel (nd_shape A) (rev (unravel (rev (nd_shape A)) j)))
                    [0..<prod_list (nd_shape A)]\<rparr>"

text \<open>
  \<^verbatim>\<open>self.R = np.zeros(self.d-1)\<close> is an array of 64-bit floats, so \<^verbatim>\<open>self.R[k] = n\<close> stores
  the float nearest to the integer \<open>n\<close> (ties to even). That float is an integer again; it
  is \<open>n\<close> itself below \<open>2^53\<close>.
\<close>

definition float64_of_nat :: "nat \<Rightarrow> nat" where
  "float64_of_nat n =
     (if n < 2 ^ 53 then n
      else let e = floorlog 2 n - 53; q = n div 2 ^ e; r = n mod 2 ^ e; h = 2 ^ (e - 1)
           in if h < r \<or> (r = h \<and> odd q) then (q + 1) * 2 ^ e else q * 2 ^ e)"

section \<open>The class \<^verbatim>\<open>BlockTTtensor\<close>\<close>

text \<open>
  The attributes of an object. \<open>'r\<close> is the type of the pyemma readers (the basis sources
  and the interfaces). \<open>self_interfaces\<close> is \<open>[]\<close> while \<^verbatim>\<open>__init__\<close> has not assigned it.
\<close>

record ('a, 'r) BlockTTtensor =
  self_U :: "'a ndarray list"
  self_basis :: "'r list"
  self_tensordir :: string
  self_d :: int
  self_root :: int
  self_M :: nat
  self_R :: "nat list"
  self_interfaces :: "'r list"

text \<open>
  The module \<^verbatim>\<open>Util\<close> is not part of the sources. Its two functions are parameters of the
  model: each takes the state \<open>'w\<close> of everything outside the object (the files under the
  cache directory) and returns a reader or an error, and the new outside state.
  \<^verbatim>\<open>Ut.ApplyLinearTransform(F, U, path)\<close> and \<^verbatim>\<open>Ut.DoubleProducts(A, B, path, U)\<close> keep their
  argument order.
\<close>

type_synonym ('a, 'r, 'w) linear_transform =
  "'r \<Rightarrow> 'a ndarray \<Rightarrow> string \<Rightarrow> 'w \<Rightarrow> (error + 'r) \<times> 'w"

type_synonym ('a, 'r, 'w) double_products =
  "'r \<Rightarrow> 'r \<Rightarrow> string \<Rightarrow> 'a ndarray \<Rightarrow> 'w \<Rightarrow> (error + 'r) \<times> 'w"

subsection \<open>Queries\<close>

datatype ranks = Rank nat | RankVector "nat list"

text \<open>\<^verbatim>\<open>GetRanks(self, k=-1)\<close>; \<open>None\<close> is the call without \<open>k\<close>.\<close>

definition GetRanks :: "('a, 'r) BlockTTtensor \<Rightarrow> int option \<Rightarrow> error + ranks" where
  "GetRanks self ko =
     (let k = (case ko of None \<Rightarrow> - 1 | Some k' \<Rightarrow> k') in
      if k \<ge> 0 \<or> k \<le> self_d self - 2
      then (case py_index (self_R self) k of Inl e \<Rightarrow> Inl e | Inr r \<Rightarrow> Inr (Rank r))
      else Inr (RankVector (self_R self)))"

definition GetRankTriple :: "('a, 'r) BlockTTtensor \<Rightarrow> int \<Rightarrow> error + nat list" where
  "GetRankTriple self k =
     (if k = self_root self
      then (case py_index (self_U self) k of Inl e \<Rightarrow> Inl e | Inr A \<Rightarrow> Inr (take 3 (nd_shape A)))
      else (case py_index (self_U self) k of Inl e \<Rightarrow> Inl e | Inr A \<Rightarrow> Inr (nd_shape A)))"

definition ComponentBasis :: "('a, 'r) BlockTTtensor \<Rightarrow> int \<Rightarrow> error + 'r" where
  "ComponentBasis self k = py_index (self_basis self) k"

text \<open>
  \<^verbatim>\<open>ComponentTensor(self, k, order=0)\<close>; \<open>None\<close> is the call without \<open>order\<close>. The tuples
  \<^verbatim>\<open>(dims[0]*dims[1], dims[2])\<close> and \<^verbatim>\<open>(dims[0], dims[1]*dims[2])\<close> raise \<open>IndexError\<close> when
  \<open>dims\<close> has fewer than three entries.
\<close>

definition left_dims :: "nat list \<Rightarrow> error + nat list" where
  "left_dims dims =
     (case dims of d0 # d1 # d2 # _ \<Rightarrow> Inr [d0 * d1, d2] | _ \<Rightarrow> Inl IndexError)"

definition right_dims :: "nat list \<Rightarrow> error + nat list" where
  "right_dims dims =
     (case dims of d0 # d1 # d2 # _ \<Rightarrow> Inr [d0, d1 * d2] | _ \<Rightarrow> Inl IndexError)"

definition ComponentTensor ::
  "('a, 'r) BlockTTtensor \<Rightarrow> int \<Rightarrow> int option \<Rightarrow> error + 'a ndarray" where
  "ComponentTensor self k oo =
     (let order = (case oo of None \<Rightarrow> 0 | Some o' \<Rightarrow> o') in
      if order = 1 \<and> \<not> k = self_root self then
        (case GetRankTriple self k of Inl e \<Rightarrow> Inl e | Inr dims \<Rightarrow>
         case py_index (self_U self) k of Inl e \<Rightarrow> Inl e | Inr A \<Rightarrow>
         case left_dims dims of Inl e \<Rightarrow> Inl e | Inr newshape \<Rightarrow> np_reshape A newshape)
      else if order = 2 \<and> \<not> k = self_root self then
        (case GetRankTriple self k of Inl e \<Rightarrow> Inl e | Inr dims \<Rightarrow>
         case py_index (self_U self) k of Inl e \<Rightarrow> Inl e | Inr A \<Rightarrow>
         case right_dims dims of Inl e \<Rightarrow> Inl e | Inr newshape \<Rightarrow> np_reshape A newshape)
      else py_index (self_U self) k)"

definition SetComponentTensor ::
  "('a, 'r) BlockTTtensor \<Rightarrow> int \<Rightarrow> 'a ndarray \<Rightarrow> error + ('a, 'r) BlockTTtensor" where
  "SetComponentTensor self k U =
     (case py_setitem (self_U self) k U of
        Inl e \<Rightarrow> Inl e
      | Inr U' \<Rightarrow> Inr (self\<lparr>self_U := U'\<rparr>))"

definition GetInterface :: "('a, 'r) BlockTTtensor \<Rightarrow> int \<Rightarrow> error + 'r" where
  "GetInterface self k = py_index (self_interfaces self) k"

definition SetInterface ::
  "('a, 'r) BlockTTtensor \<Rightarrow> int \<Rightarrow> 'r \<Rightarrow> error + ('a, 'r) BlockTTtensor" where
  "SetInterface self k intf =
     (case py_setitem (self_interfaces self) k intf of
        Inl e \<Rightarrow> Inl e
      | Inr I' \<Rightarrow> Inr (self\<lparr>self_interfaces := I'\<rparr>))"

subsection \<open>The sweep \<^verbatim>\<open>ComputeInterfaces\<close>\<close>

text \<open>
  The body of the first loop, for one \<open>k\<close>. \<open>Yk\<close> is the local variable of that name:
  \<open>None\<close> while unassigned. The body's value is the new \<open>Yk\<close>, which the loop appends to
  \<^verbatim>\<open>interface_list\<close>.
\<close>

definition left_body ::
  "('a, 'r, 'w) linear_transform \<Rightarrow> ('a, 'r, 'w) double_products \<Rightarrow> ('a, 'r) BlockTTtensor \<Rightarrow>
   int \<Rightarrow> 'r option \<Rightarrow> 'w \<Rightarrow> (error + 'r) \<times> 'w" where
  "left_body ApplyLinearTransform DoubleProducts self k Yk w =
     (case ComponentTensor self k (Some 1) of Inl e \<Rightarrow> (Inl e, w) | Inr Uk \<Rightarrow>
      case ComponentBasis self k of Inl e \<Rightarrow> (Inl e, w) | Inr Fk \<Rightarrow>
      if k = 0
      then ApplyLinearTransform Fk Uk (self_tensordir self @ ''Interface'' @ fmt_d k) w
      else (case Yk of None \<Rightarrow> (Inl UnboundLocalError, w) | Some Y \<Rightarrow>
            DoubleProducts Y Fk (self_tensordir self @ ''Interface'' @ fmt_d k) Uk w))"

text \<open>The body of the second loop; the loop inserts its value at the front of \<^verbatim>\<open>backward_list\<close>.\<close>

definition right_body ::
  "('a, 'r, 'w) linear_transform \<Rightarrow> ('a, 'r, 'w) double_products \<Rightarrow> ('a, 'r) BlockTTtensor \<Rightarrow>
   int \<Rightarrow> 'r option \<Rightarrow> 'w \<Rightarrow> (error + 'r) \<times> 'w" where
  "right_body ApplyLinearTransform DoubleProducts self k Yk w =
     (case ComponentTensor self (k + 1) (Some 2) of Inl e \<Rightarrow> (Inl e, w) | Inr Uk \<Rightarrow>
      case ComponentBasis self (k + 1) of Inl e \<Rightarrow> (Inl e, w) | Inr Fk \<Rightarrow>
      if k = self_d self - 2
      then ApplyLinearTransform Fk (np_transpose Uk)
             (self_tensordir self @ ''Interface'' @ fmt_d k) w
      else (case Yk of None \<Rightarrow> (Inl UnboundLocalError, w) | Some Y \<Rightarrow>
            DoubleProducts Fk Y (self_tensordir self @ ''Interface'' @ fmt_d k)
              (np_transpose Uk) w))"

text \<open>
  The two \<^verbatim>\<open>for\<close> loops, over the list of values \<open>k\<close> takes. The loop state is \<open>Yk\<close> and
  the list built so far; an exception ends the loop with the outside state reached.
\<close>

fun left_loop ::
  "('a, 'r, 'w) linear_transform \<Rightarrow> ('a, 'r, 'w) double_products \<Rightarrow> ('a, 'r) BlockTTtensor \<Rightarrow>
   int list \<Rightarrow> 'r option \<Rightarrow> 'r list \<Rightarrow> 'w \<Rightarrow> (error + 'r option \<times> 'r list) \<times> 'w" where
  "left_loop alt dp self [] Yk interface_list w = (Inr (Yk, interface_list), w)"
| "left_loop alt dp self (k # ks) Yk interface_list w =
     (case left_body alt dp self k Yk w of
        (Inl e, w') \<Rightarrow> (Inl e, w')
      | (Inr Y, w') \<Rightarrow> left_loop alt dp self ks (Some Y) (interface_list @ [Y]) w')"

fun right_loop ::
  "('a, 'r, 'w) linear_transform \<Rightarrow> ('a, 'r, 'w) double_products \<Rightarrow> ('a, 'r) BlockTTtensor \<Rightarrow>
   int list \<Rightarrow> 'r option \<Rightarrow> 'r list \<Rightarrow> 'w \<Rightarrow> (error + 'r option \<times> 'r list) \<times> 'w" where
  "right_loop alt dp self [] Yk backward_list w = (Inr (Yk, backward_list), w)"
| "right_loop alt dp self (k # ks) Yk backward_list w =
     (case right_body alt dp self k Yk w of
        (Inl e, w') \<Rightarrow> (Inl e, w')
      | (Inr Y, w') \<Rightarrow> right_loop alt dp self ks (Some Y) (Y # backward_list) w')"

text \<open>The values of \<open>k\<close> in the two loops: \<^verbatim>\<open>range(self.root)\<close> and \<^verbatim>\<open>range(self.d-2,self.root-1,-1)\<close>.\<close>

definition left_keys :: "('a, 'r) BlockTTtensor \<Rightarrow> int list" where
  "left_keys self = py_range (self_root self)"

definition right_keys :: "('a, 'r) BlockTTtensor \<Rightarrow> int list" where
  "right_keys self = py_range_down (self_d self - 2) (self_root self - 1)"

definition ComputeInterfaces ::
  "('a, 'r, 'w) linear_transform \<Rightarrow> ('a, 'r, 'w) double_products \<Rightarrow> ('a, 'r) BlockTTtensor \<Rightarrow>
   'w \<Rightarrow> (error + 'r list) \<times> 'w" where
  "ComputeInterfaces alt dp self w =
     (case left_loop alt dp self (left_keys self) None [] w of
        (Inl e, w1) \<Rightarrow> (Inl e, w1)
      | (Inr (Yk, interface_list), w1) \<Rightarrow>
          (case right_loop alt dp self (right_keys self) Yk [] w1 of
             (Inl e, w2) \<Rightarrow> (Inl e, w2)
           | (Inr (Yk', backward_list), w2) \<Rightarrow> (Inr (interface_list @ backward_list), w2)))"

subsection \<open>The constructor\<close>

text \<open>The loop \<^verbatim>\<open>for k in range(self.d-1): self.R[k] = self.U[k].shape[2]\<close>.\<close>

fun extract_ranks :: "'a ndarray list \<Rightarrow> int list \<Rightarrow> nat list \<Rightarrow> error + nat list" where
  "extract_ranks U [] R = Inr R"
| "extract_ranks U (k # ks) R =
     (case py_index U k of Inl e \<Rightarrow> Inl e | Inr A \<Rightarrow>
      case py_index (nd_shape A) 2 of Inl e \<Rightarrow> Inl e | Inr n \<Rightarrow>
      case py_setitem R k (float64_of_nat n) of Inl e \<Rightarrow> Inl e | Inr R' \<Rightarrow>
      extract_ranks U ks R')"

text \<open>
  \<^verbatim>\<open>__init__(self, U, basis, tensordir="./")\<close>; \<open>None\<close> is the call without \<open>tensordir\<close>.
  \<^verbatim>\<open>np.zeros(self.d-1)\<close> is reached with \<open>d \<ge> 1\<close> only, since \<^verbatim>\<open>self.U[0]\<close> is read first.
\<close>

definition BlockTTtensor_init ::
  "('a, 'r, 'w) linear_transform \<Rightarrow> ('a, 'r, 'w) double_products \<Rightarrow> 'a ndarray list \<Rightarrow>
   'r list \<Rightarrow> string option \<Rightarrow> 'w \<Rightarrow> (error + ('a, 'r) BlockTTtensor) \<times> 'w" where
  "BlockTTtensor_init alt dp U basis dir w =
     (let tensordir = (case dir of None \<Rightarrow> ''./'' | Some t \<Rightarrow> t);
          d = int (length U);
          root = 0
      in case py_index U 0 of Inl e \<Rightarrow> (Inl e, w) | Inr U0 \<Rightarrow>
         case py_index (nd_shape U0) 3 of Inl e \<Rightarrow> (Inl e, w) | Inr M \<Rightarrow>
         case extract_ranks U (py_range (d - 1)) (replicate (nat (d - 1)) 0) of
           Inl e \<Rightarrow> (Inl e, w)
         | Inr R \<Rightarrow>
             (let self = \<lparr>self_U = U, self_basis = basis, self_tensordir = tensordir,
                          self_d = d, self_root = root, self_M = M, self_R = R,
                          self_interfaces = []\<rparr>
              in case ComputeInterfaces alt dp self w of
                   (Inl e, w') \<Rightarrow> (Inl e, w')
                 | (Inr ys, w') \<Rightarrow> (Inr (self\<lparr>self_interfaces := ys\<rparr>), w')))"

section \<open>Auxiliary definitions for the proofs\<close>

text \<open>
  Both loops run a body over the values of \<open>k\<close>, hand \<open>Yk\<close> from one round to the next and
  stop at the first exception. \<open>iterate\<close> is that scheme with the results in the order
  they were computed; the loops are related to it below.
\<close>

fun iterate ::
  "(int \<Rightarrow> 'r option \<Rightarrow> 'w \<Rightarrow> (error + 'r) \<times> 'w) \<Rightarrow> int list \<Rightarrow> 'r option \<Rightarrow> 'w \<Rightarrow>
   (error + 'r option \<times> 'r list) \<times> 'w" where
  "iterate body [] Yk w = (Inr (Yk, []), w)"
| "iterate body (k # ks) Yk w =
     (case body k Yk w of
        (Inl e, w') \<Rightarrow> (Inl e, w')
      | (Inr Y, w') \<Rightarrow>
          (case iterate body ks (Some Y) w' of
             (Inl e, w'') \<Rightarrow> (Inl e, w'')
           | (Inr (Yk', zs), w'') \<Rightarrow> (Inr (Yk', Y # zs), w'')))"

text \<open>
  Observing the calls: a primitive wrapped by \<open>logged_alt\<close> or \<open>logged_dp\<close> behaves as before
  and appends the path it was given to a log kept beside the outside state.
\<close>

definition logged_alt ::
  "('a, 'r, 'w) linear_transform \<Rightarrow> ('a, 'r, 'w \<times> string list) linear_transform" where
  "logged_alt alt F U p wl =
     (case alt F U p (fst wl) of (res, w') \<Rightarrow> (res, (w', snd wl @ [p])))"

definition logged_dp ::
  "('a, 'r, 'w) double_products \<Rightarrow> ('a, 'r, 'w \<times> string list) double_products" where
  "logged_dp dp A B p U wl =
     (case dp A B p U (fst wl) of (res, w') \<Rightarrow> (res, (w', snd wl @ [p])))"

text \<open>
  A primitive is deterministic when what it returns depends on its arguments only, not on
  the outside state it runs in.
\<close>

definition deterministic_alt :: "('a, 'r, 'w) linear_transform \<Rightarrow> bool" where
  "deterministic_alt alt = (\<forall>F U p w w'. fst (alt F U p w) = fst (alt F U p w'))"

definition deterministic_dp :: "('a, 'r, 'w) double_products \<Rightarrow> bool" where
  "deterministic_dp dp = (\<forall>A B p U w w'. fst (dp A B p U w) = fst (dp A B p U w'))"

text \<open>
  A primitive is total when it returns a reader, and raises nothing, on every call.
\<close>

definition total_alt :: "('a, 'r, 'w) linear_transform \<Rightarrow> bool" where
  "total_alt alt = (\<forall>F U p w. \<exists>Y w'. alt F U p w = (Inr Y, w'))"

definition total_dp :: "('a, 'r, 'w) double_products \<Rightarrow> bool" where
  "total_dp dp = (\<forall>A B p U w. \<exists>Y w'. dp A B p U w = (Inr Y, w'))"

subsection \<open>Concrete inputs\<close>

text \<open>
  Readers as terms: a basis source, or the record of the call that made the reader. The
  two primitives below build these terms and never fail; the outside state is the number
  of calls made so far.
\<close>

datatype reader =
  Basis nat
| Linear reader "int ndarray" string
| Double reader reader string "int ndarray"

definition sym_alt :: "(int, reader, nat) linear_transform" where
  "sym_alt F U p w = (Inr (Linear F U p), Suc w)"

definition sym_dp :: "(int, reader, nat) double_products" where
  "sym_dp A B p U w = (Inr (Double A B p U), Suc w)"

text \<open>Three components of shapes \<open>(1,2,2,2)\<close>, \<open>(2,2,3)\<close> and \<open>(3,2,1)\<close>: \<open>d = 3\<close>, \<open>M = 2\<close>, ranks \<open>2, 3\<close>.\<close>

definition ex_U :: "int ndarray list" where
  "ex_U = [\<lparr>nd_shape = [1, 2, 2, 2], nd_data = [1, 2, 3, 4, 5, 6, 7, 8]\<rparr>,
           \<lparr>nd_shape = [2, 2, 3], nd_data = [1, 2, 3, 4, 5, 6, 7, 8, 9, 10, 11, 12]\<rparr>,
           \<lparr>nd_shape = [3, 2, 1], nd_data = [1, 2, 3, 4, 5, 6]\<rparr>]"

definition ex_basis :: "reader list" where
  "ex_basis = [Basis 0, Basis 1, Basis 2]"

text \<open>The object \<^verbatim>\<open>BlockTTtensor(ex_U, ex_basis)\<close> before its interfaces are assigned.\<close>

definition ex_self :: "(int, reader) BlockTTtensor" where
  "ex_self = \<lparr>self_U = ex_U, self_basis = ex_basis, self_tensordir = ''./'', self_d = 3,
              self_root = 0, self_M = 2, self_R = [2, 3], self_interfaces = []\<rparr>"

text \<open>
  Two components whose ranks disagree: component 0 has shape \<open>(1,2,2,2)\<close>, so its right
  rank is 2, and component 1 has shape \<open>(3,1,1)\<close>, so its left rank is 3.
\<close>

definition bad_U :: "int ndarray list" where
  "bad_U = [\<lparr>nd_shape = [1, 2, 2, 2], nd_data = [1, 2, 3, 4, 5, 6, 7, 8]\<rparr>,
            \<lparr>nd_shape = [3, 1, 1], nd_data = [5, 6, 7]\<rparr>]"

text \<open>
  An object whose root is the last coordinate: components of shapes \<open>(1,2,2)\<close>, \<open>(2,2,3)\<close>
  and \<open>(3,2,1,2)\<close>, \<^verbatim>\<open>root\<close> set to 2. The interfaces its sweep returns follow.
\<close>

definition ex_left :: "(int, reader) BlockTTtensor" where
  "ex_left =
     \<lparr>self_U = [\<lparr>nd_shape = [1, 2, 2], nd_data = [1, 2, 3, 4]\<rparr>,
                \<lparr>nd_shape = [2, 2, 3], nd_data = [1, 2, 3, 4, 5, 6, 7, 8, 9, 10, 11, 12]\<rparr>,
                \<lparr>nd_shape = [3, 2, 1, 2],
                 nd_data = [1, 2, 3, 4, 5, 6, 7, 8, 9, 10, 11, 12]\<rparr>],
      self_basis = ex_basis, self_tensordir = ''./'', self_d = 3, self_root = 2, self_M = 2,
      self_R = [2, 3], self_interfaces = []\<rparr>"

definition ex_left_ys :: "reader list" where
  "ex_left_ys =
     [Linear (Basis 0) \<lparr>nd_shape = [2, 2], nd_data = [1, 2, 3, 4]\<rparr> ''./Interface0'',
      Double (Linear (Basis 0) \<lparr>nd_shape = [2, 2], nd_data = [1, 2, 3, 4]\<rparr> ''./Interface0'')
        (Basis 1) ''./Interface1''
        \<lparr>nd_shape = [4, 3], nd_data = [1, 2, 3, 4, 5, 6, 7, 8, 9, 10, 11, 12]\<rparr>]"

text \<open>The interfaces \<^verbatim>\<open>BlockTTtensor(ex_U, ex_basis)\<close> computes (\<open>root = 0\<close>: right sweep only).\<close>

definition ex_ys :: "reader list" where
  "ex_ys =
     [Double (Basis 1)
        (Linear (Basis 2) \<lparr>nd_shape = [2, 3], nd_data = [1, 3, 5, 2, 4, 6]\<rparr> ''./Interface1'')
        ''./Interface0''
        \<lparr>nd_shape = [6, 2], nd_data = [1, 7, 2, 8, 3, 9, 4, 10, 5, 11, 6, 12]\<rparr>,
      Linear (Basis 2) \<lparr>nd_shape = [2, 3], nd_data = [1, 3, 5, 2, 4, 6]\<rparr> ''./Interface1'']"

text \<open>
  The object the constructor returns for \<open>ex_U\<close> and \<open>ex_basis\<close>.
\<close>

definition ex_obj :: "(int, reader) BlockTTtensor" where
  "ex_obj = ex_self\<lparr>self_interfaces := ex_ys\<rparr>"

text \<open>
  An object whose root is the middle coordinate, so that each sweep makes one step:
  components of shapes \<open>(1,2,2)\<close>, \<open>(2,2,3,2)\<close> and \<open>(3,2,1)\<close>, \<^verbatim>\<open>root\<close> set to 1. The
  interfaces its sweep returns follow.
\<close>

definition ex_mid :: "(int, reader) BlockTTtensor" where
  "ex_mid =
     \<lparr>self_U = [\<lparr>nd_shape = [1, 2, 2], nd_data = [1, 2, 3, 4]\<rparr>,
                \<lparr>nd_shape = [2, 2, 3, 2], nd_data = map int [1..<25]\<rparr>,
                \<lparr>nd_shape = [3, 2, 1], nd_data = [1, 2, 3, 4, 5, 6]\<rparr>],
      self_basis = ex_basis, self_tensordir = ''./'', self_d = 3, self_root = 1, self_M = 2,
      self_R = [2, 3], self_interfaces = []\<rparr>"

definition ex_mid_ys :: "reader list" where
  "ex_mid_ys =
     [Linear (Basis 0) \<lparr>nd_shape = [2, 2], nd_data = [1, 2, 3, 4]\<rparr> ''./Interface0'',
      Linear (Basis 2) \<lparr>nd_shape = [2, 3], nd_data = [1, 3, 5, 2, 4, 6]\<rparr> ''./Interface1'']"

text \<open>
  The pre-object and the interfaces for the components \<open>bad_U\<close>, whose ranks disagree.
\<close>

definition bad_basis :: "reader list" where
  "bad_basis = [Basis 0, Basis 1]"

definition bad_self :: "(int, reader) BlockTTtensor" where
  "bad_self = \<lparr>self_U = bad_U, self_basis = bad_basis, self_tensordir = ''./'',
               self_d = 2, self_root = 0, self_M = 2, self_R = [2], self_interfaces = []\<rparr>"

definition bad_ys :: "reader list" where
  "bad_ys = [Linear (Basis 1) \<lparr>nd_shape = [1, 3], nd_data = [5, 6, 7]\<rparr> ''./Interface0'']"

text \<open>
  Two components, the first with three axes only.
\<close>

definition flat_U :: "int ndarray list" where
  "flat_U = [\<lparr>nd_shape = [1, 2, 2], nd_data = [1, 2, 3, 4]\<rparr>,
             \<lparr>nd_shape = [2, 2, 1], nd_data = [1, 2, 3, 4]\<rparr>]"

subsection \<open>Reading a decimal numeral\<close>

text \<open>
  The inverse of \<^verbatim>\<open>"%d" % k\<close>, to state that \<open>fmt_d k\<close> is the decimal numeral of \<open>k\<close>: the
  value of a string of digits, with an optional leading minus sign.
\<close>

definition digit_value :: "char \<Rightarrow> nat" where
  "digit_value c = of_char c - 48"

definition read_digits :: "string \<Rightarrow> nat" where
  "read_digits cs = foldl (\<lambda>a c. 10 * a + digit_value c) 0 cs"

definition read_d :: "string \<Rightarrow> int" where
  "read_d cs = (case cs of
                  c # cs' \<Rightarrow> if c = CHR ''-'' then - int (read_digits cs') else int (read_digits cs)
                | [] \<Rightarrow> 0)"

section \<open>Indexing, ranges and the loop scheme\<close>

text \<open>
  Reshaping and transposing keep arrays well formed. On a matrix of shape \<open>(m, n)\<close>,
  \<open>np_transpose\<close> is the matrix transpose: the entry at \<open>(j, i)\<close> of the result is the entry
  at \<open>(i, j)\<close> of the argument. Ranks below \<open>2^53\<close> are stored in the rank vector exactly.
\<close>

lemma nd_wf_reshape: "nd_wf A \<Longrightarrow> np_reshape A newshape = Inr B \<Longrightarrow> nd_wf B"
  by (auto simp: nd_wf_def np_reshape_def split: if_splits)

lemma nd_wf_transpose: "nd_wf (np_transpose A)"
  by (simp add: nd_wf_def np_transpose_def)

lemma np_transpose_matrix:
  assumes shape: "nd_shape A = [m, n]" and i: "i < m" and j: "j < n"
  shows "nd_shape (np_transpose A) = [n, m]"
    and "nd_data (np_transpose A) ! (j * m + i) = nd_data A ! (i * n + j)"
proof -
  show "nd_shape (np_transpose A) = [n, m]"
    using shape by (simp add: np_transpose_def)
  have "j * m + i < Suc j * m" using i by simp
  also have "Suc j * m \<le> n * m" using j by (intro mult_le_mono1) simp
  finally have pos: "j * m + i < m * n" by (simp add: mult.commute)
  have "unravel [n, m] (j * m + i) = [j, i]"
    using i by simp
  then show "nd_data (np_transpose A) ! (j * m + i) = nd_data A ! (i * n + j)"
    using shape pos by (simp add: np_transpose_def)
qed

lemma float64_of_nat_small: "n < 2 ^ 53 \<Longrightarrow> float64_of_nat n = n"
  by (simp add: float64_of_nat_def)

text \<open>
  Indexing with a coordinate, and the values of \<open>k\<close> the two loops run over.
\<close>

lemma py_index_coordinate:
  "0 \<le> i \<Longrightarrow> i < int (length xs) \<Longrightarrow> py_index xs i = Inr (xs ! nat i)"
  by (simp add: py_index_def norm_index_def)

lemma length_py_range: "length (py_range n) = nat n"
  by (simp add: py_range_def)

lemma nth_py_range: "i < nat n \<Longrightarrow> py_range n ! i = int i"
  by (simp add: py_range_def)

lemma set_py_range: "set (py_range n) = {k. 0 \<le> k \<and> k < n}"
  unfolding py_range_def
proof (intro set_eqI iffI)
  fix k assume "k \<in> set (map int [0..<nat n])"
  then show "k \<in> {k. 0 \<le> k \<and> k < n}" by auto
next
  fix k assume "k \<in> {k. 0 \<le> k \<and> k < n}"
  then have "nat k < nat n" "k = int (nat k)" by auto
  then show "k \<in> set (map int [0..<nat n])"
    by (metis atLeast0LessThan image_eqI lessThan_iff set_map set_upt)
qed

lemma distinct_py_range: "distinct (py_range n)"
  by (simp add: py_range_def distinct_map inj_on_def)

lemma length_py_range_down: "length (py_range_down a b) = nat (a - b)"
  by (simp add: py_range_down_def)

lemma nth_py_range_down:
  assumes "i < nat (a - b)"
  shows "py_range_down a b ! i = a - int i"
proof -
  have "int (nat (a - b) - Suc i) = a - b - 1 - int i"
    using assms by linarith
  then show ?thesis
    using assms by (simp add: py_range_down_def rev_nth)
qed

lemma set_py_range_down: "set (py_range_down a b) = {k. b < k \<and> k \<le> a}"
  by (auto simp: py_range_down_def)

lemma distinct_py_range_down: "distinct (py_range_down a b)"
  by (simp add: py_range_down_def)

text \<open>
  Each loop is the scheme \<open>iterate\<close> over its body; the first appends the results in the
  order computed, the second ends with them reversed.
\<close>

lemma left_loop_iterate:
  "left_loop alt dp self ks Yk il w =
     (case iterate (left_body alt dp self) ks Yk w of
        (Inl e, w') \<Rightarrow> (Inl e, w')
      | (Inr (Y, zs), w') \<Rightarrow> (Inr (Y, il @ zs), w'))"
  by (induction ks arbitrary: Yk il w) (auto split: prod.splits sum.splits)

lemma right_loop_iterate:
  "right_loop alt dp self ks Yk bl w =
     (case iterate (right_body alt dp self) ks Yk w of
        (Inl e, w') \<Rightarrow> (Inl e, w')
      | (Inr (Y, zs), w') \<Rightarrow> (Inr (Y, rev zs @ bl), w'))"
  by (induction ks arbitrary: Yk bl w) (auto split: prod.splits sum.splits)

text \<open>
  A run of the scheme that raises nothing has made one step per key, each in the outside
  state the step before left behind and with the previous result as \<open>Yk\<close>.
\<close>

lemma iterate_Inr_trace:
  "iterate body ks Yk w = (Inr (Yk', zs), w') \<Longrightarrow>
   length zs = length ks \<and>
   (\<exists>ws. length ws = Suc (length ks) \<and> ws ! 0 = w \<and> ws ! length ks = w' \<and>
      (\<forall>i<length ks. body (ks ! i) (if i = 0 then Yk else Some (zs ! (i - 1))) (ws ! i)
                        = (Inr (zs ! i), ws ! Suc i)))"
proof (induction ks arbitrary: Yk w zs)
  case Nil
  then show ?case by (auto intro: exI [of _ "[w]"])
next
  case (Cons k ks)
  from Cons.prems obtain Y w1 zs' where
    step: "body k Yk w = (Inr Y, w1)" and
    rest: "iterate body ks (Some Y) w1 = (Inr (Yk', zs'), w')" and
    zs: "zs = Y # zs'"
    by (auto split: prod.splits sum.splits)
  from Cons.IH [OF rest] obtain ws where
    len: "length zs' = length ks" and
    ws: "length ws = Suc (length ks)" "ws ! 0 = w1" "ws ! length ks = w'" and
    tr: "\<forall>i<length ks. body (ks ! i) (if i = 0 then Some Y else Some (zs' ! (i - 1))) (ws ! i)
                          = (Inr (zs' ! i), ws ! Suc i)"
    by blast
  have "\<forall>i<length (k # ks).
          body ((k # ks) ! i) (if i = 0 then Yk else Some (zs ! (i - 1))) ((w # ws) ! i)
            = (Inr (zs ! i), (w # ws) ! Suc i)"
  proof (intro allI impI)
    fix i assume i: "i < length (k # ks)"
    show "body ((k # ks) ! i) (if i = 0 then Yk else Some (zs ! (i - 1))) ((w # ws) ! i)
            = (Inr (zs ! i), (w # ws) ! Suc i)"
    proof (cases i)
      case 0
      then show ?thesis using step zs ws by simp
    next
      case (Suc j)
      with i have j: "j < length ks" by simp
      from tr j have "body (ks ! j) (if j = 0 then Some Y else Some (zs' ! (j - 1))) (ws ! j)
                        = (Inr (zs' ! j), ws ! Suc j)" by blast
      moreover have "(if j = 0 then Some Y else Some (zs' ! (j - 1))) = Some (zs ! j)"
        using zs by (cases j) simp_all
      ultimately show ?thesis using Suc zs by simp
    qed
  qed
  then show ?case using len ws zs
    by (intro conjI exI [of _ "w # ws"]) simp_all
qed

text \<open>
  A step returns a reader only from a call of a primitive: the linear transform at the
  first key of its loop, the double product, with an assigned \<open>Yk\<close>, at every other key.
\<close>

lemma left_body_Inr:
  assumes "left_body alt dp self k Yk w = (Inr Y, w')"
  shows "\<exists>Uk Fk. ComponentTensor self k (Some 1) = Inr Uk \<and> ComponentBasis self k = Inr Fk \<and>
           (if k = 0 then alt Fk Uk (self_tensordir self @ ''Interface'' @ fmt_d k) w = (Inr Y, w')
            else \<exists>Y0. Yk = Some Y0 \<and>
                   dp Y0 Fk (self_tensordir self @ ''Interface'' @ fmt_d k) Uk w = (Inr Y, w'))"
  using assms unfolding left_body_def
  by (auto split: sum.splits option.splits if_splits)

lemma right_body_Inr:
  assumes "right_body alt dp self k Yk w = (Inr Y, w')"
  shows "\<exists>Uk Fk. ComponentTensor self (k + 1) (Some 2) = Inr Uk \<and>
           ComponentBasis self (k + 1) = Inr Fk \<and>
           (if k = self_d self - 2
            then alt Fk (np_transpose Uk) (self_tensordir self @ ''Interface'' @ fmt_d k) w
                   = (Inr Y, w')
            else \<exists>Y0. Yk = Some Y0 \<and>
                   dp Fk Y0 (self_tensordir self @ ''Interface'' @ fmt_d k) (np_transpose Uk) w
                     = (Inr Y, w'))"
  using assms unfolding right_body_def
  by (auto split: sum.splits option.splits if_splits)

lemma ComputeInterfaces_Inr:
  assumes "ComputeInterfaces alt dp self w = (Inr ys, w')"
  shows "\<exists>Yl zl w1 Yr zr.
           iterate (left_body alt dp self) (left_keys self) None w = (Inr (Yl, zl), w1) \<and>
           iterate (right_body alt dp self) (right_keys self) Yl w1 = (Inr (Yr, zr), w') \<and>
           ys = zl @ rev zr"
  using assms unfolding ComputeInterfaces_def left_loop_iterate right_loop_iterate
  by (auto split: prod.splits sum.splits)

section \<open>The sweep\<close>

text \<open>
  C1. Left sweep. When \<open>root > 0\<close> and \<open>ComputeInterfaces\<close> returns the list \<open>ys\<close>, there is a
  sequence \<open>ws\<close> of outside states, starting with the state the sweep was called in, such
  that: \<open>ys ! 0\<close> is what the linear-transform primitive returned, in state \<open>ws ! 0\<close>, for
  basis source 0, the left unfolding of component 0 and the path of key 0; and for every
  \<open>0 < k < root\<close>, \<open>ys ! k\<close> is what the double-product primitive returned, in state \<open>ws ! k\<close>
  (the one the step for \<open>k - 1\<close> left behind), for the interface \<open>ys ! (k - 1)\<close>, basis source
  \<open>k\<close>, and the left unfolding of component \<open>k\<close>. The results stand in \<open>ys\<close> at their keys,
  computed in increasing order of \<open>k\<close>.
\<close>

theorem left_sweep_correct:
  assumes root: "0 < self_root self"
    and run: "ComputeInterfaces alt dp self w = (Inr ys, w')"
  shows "\<exists>ws. length ws = Suc (nat (self_root self)) \<and> ws ! 0 = w \<and>
           (\<exists>U0 F0. ComponentTensor self 0 (Some 1) = Inr U0 \<and> ComponentBasis self 0 = Inr F0 \<and>
                alt F0 U0 (self_tensordir self @ ''Interface'' @ fmt_d 0) (ws ! 0)
                  = (Inr (ys ! 0), ws ! 1)) \<and>
           (\<forall>k. 0 < k \<and> k < self_root self \<longrightarrow>
                (\<exists>Uk Fk. ComponentTensor self k (Some 1) = Inr Uk \<and>
                     ComponentBasis self k = Inr Fk \<and>
                     dp (ys ! nat (k - 1)) Fk (self_tensordir self @ ''Interface'' @ fmt_d k) Uk
                        (ws ! nat k)
                       = (Inr (ys ! nat k), ws ! Suc (nat k))))"
proof -
  let ?n = "nat (self_root self)"
  from ComputeInterfaces_Inr [OF run] obtain Yl zl w1 Yr zr where
    left: "iterate (left_body alt dp self) (left_keys self) None w = (Inr (Yl, zl), w1)" and
    ys: "ys = zl @ rev zr"
    by blast
  have keys: "length (left_keys self) = ?n"
    by (simp add: left_keys_def length_py_range)
  from iterate_Inr_trace [OF left] keys obtain ws where
    len: "length zl = ?n" and
    ws: "length ws = Suc ?n" "ws ! 0 = w" and
    tr: "\<forall>i<?n. left_body alt dp self (left_keys self ! i)
                   (if i = 0 then None else Some (zl ! (i - 1))) (ws ! i)
                 = (Inr (zl ! i), ws ! Suc i)"
    by auto
  have nth_ys: "ys ! i = zl ! i" if "i < ?n" for i
    using that len ys by (simp add: nth_append)
  have first: "\<exists>U0 F0. ComponentTensor self 0 (Some 1) = Inr U0 \<and> ComponentBasis self 0 = Inr F0 \<and>
                 alt F0 U0 (self_tensordir self @ ''Interface'' @ fmt_d 0) (ws ! 0)
                   = (Inr (ys ! 0), ws ! 1)"
  proof -
    from root have 0: "0 < ?n" by simp
    with tr have "left_body alt dp self (left_keys self ! 0) None (ws ! 0)
                    = (Inr (zl ! 0), ws ! Suc 0)"
      by fastforce
    moreover have "left_keys self ! 0 = 0"
      using 0 by (simp add: left_keys_def nth_py_range)
    ultimately have "left_body alt dp self 0 None (ws ! 0) = (Inr (ys ! 0), ws ! 1)"
      using nth_ys [OF 0] by simp
    from left_body_Inr [OF this] show ?thesis by simp
  qed
  have later: "\<exists>Uk Fk. ComponentTensor self k (Some 1) = Inr Uk \<and> ComponentBasis self k = Inr Fk \<and>
                 dp (ys ! nat (k - 1)) Fk (self_tensordir self @ ''Interface'' @ fmt_d k) Uk
                    (ws ! nat k)
                   = (Inr (ys ! nat k), ws ! Suc (nat k))"
    if k: "0 < k" "k < self_root self" for k
  proof -
    from k have i: "nat k < ?n" "nat k \<noteq> 0" "nat k - 1 < ?n" by simp_all
    have key: "left_keys self ! nat k = k"
      using i k by (simp add: left_keys_def nth_py_range)
    from tr i have "left_body alt dp self (left_keys self ! nat k) (Some (zl ! (nat k - 1)))
                      (ws ! nat k) = (Inr (zl ! nat k), ws ! Suc (nat k))"
      by fastforce
    then have "left_body alt dp self k (Some (ys ! (nat k - 1))) (ws ! nat k)
                 = (Inr (ys ! nat k), ws ! Suc (nat k))"
      using key nth_ys i by simp
    moreover have "nat k - 1 = nat (k - 1)" using k by simp
    ultimately have "left_body alt dp self k (Some (ys ! nat (k - 1))) (ws ! nat k)
                 = (Inr (ys ! nat k), ws ! Suc (nat k))"
      by simp
    from left_body_Inr [OF this] k show ?thesis by auto
  qed
  from ws first later show ?thesis by blast
qed

lemma ex_left_run: "ComputeInterfaces sym_alt sym_dp ex_left 0 = (Inr ex_left_ys, 2)"
  by code_simp

lemma ex_left_root: "0 < self_root ex_left"
  by (simp add: ex_left_def)

theorem left_sweep_correct_witness:
  "0 < self_root ex_left \<and>
   ComputeInterfaces sym_alt sym_dp ex_left 0 = (Inr ex_left_ys, 2) \<and>
   (\<exists>ws. length ws = Suc (nat (self_root ex_left)) \<and> ws ! 0 = 0 \<and>
       (\<exists>U0 F0. ComponentTensor ex_left 0 (Some 1) = Inr U0 \<and> ComponentBasis ex_left 0 = Inr F0 \<and>
            sym_alt F0 U0 (self_tensordir ex_left @ ''Interface'' @ fmt_d 0) (ws ! 0)
              = (Inr (ex_left_ys ! 0), ws ! 1)) \<and>
       (\<forall>k. 0 < k \<and> k < self_root ex_left \<longrightarrow>
            (\<exists>Uk Fk. ComponentTensor ex_left k (Some 1) = Inr Uk \<and>
                 ComponentBasis ex_left k = Inr Fk \<and>
                 sym_dp (ex_left_ys ! nat (k - 1)) Fk
                    (self_tensordir ex_left @ ''Interface'' @ fmt_d k) Uk (ws ! nat k)
                   = (Inr (ex_left_ys ! nat k), ws ! Suc (nat k)))))"
  using left_sweep_correct [OF ex_left_root ex_left_run] ex_left_root ex_left_run
  by blast

text \<open>
  C2. Right sweep. When \<open>0 \<le> root \<le> d - 2\<close> and \<open>ComputeInterfaces\<close> returns the list \<open>ys\<close>,
  there is a sequence \<open>ws\<close> of outside states, ending with the state the sweep returns
  (and starting with the state it was called in when \<open>root = 0\<close>), such that:
  \<open>ys ! (d - 2)\<close> is what the linear-transform primitive returned, in state \<open>ws ! 0\<close>, for
  basis source \<open>d - 1\<close>, the transposed right unfolding of component \<open>d - 1\<close> and the path
  of key \<open>d - 2\<close>; and for every \<open>k\<close> from \<open>d - 3\<close> down to \<open>root\<close>, \<open>ys ! k\<close> is what the
  double-product primitive returned, in the state the step for \<open>k + 1\<close> left behind, for
  basis source \<open>k + 1\<close>, the interface \<open>ys ! (k + 1)\<close> and the transposed right unfolding
  of component \<open>k + 1\<close>. The list has \<open>d - 1\<close> entries, each at its key.
\<close>

theorem right_sweep_correct:
  assumes root: "0 \<le> self_root self" "self_root self \<le> self_d self - 2"
    and run: "ComputeInterfaces alt dp self w = (Inr ys, w')"
  shows "length ys = nat (self_d self - 1) \<and>
         (\<exists>ws. length ws = Suc (nat (self_d self - 1 - self_root self)) \<and>
            (if self_root self = 0 then ws ! 0 = w else True) \<and>
            ws ! nat (self_d self - 1 - self_root self) = w' \<and>
            (\<exists>Uk Fk. ComponentTensor self (self_d self - 1) (Some 2) = Inr Uk \<and>
                 ComponentBasis self (self_d self - 1) = Inr Fk \<and>
                 alt Fk (np_transpose Uk)
                    (self_tensordir self @ ''Interface'' @ fmt_d (self_d self - 2)) (ws ! 0)
                   = (Inr (ys ! nat (self_d self - 2)), ws ! 1)) \<and>
            (\<forall>k. self_root self \<le> k \<and> k < self_d self - 2 \<longrightarrow>
                 (\<exists>Uk Fk. ComponentTensor self (k + 1) (Some 2) = Inr Uk \<and>
                      ComponentBasis self (k + 1) = Inr Fk \<and>
                      dp Fk (ys ! nat (k + 1))
                         (self_tensordir self @ ''Interface'' @ fmt_d k) (np_transpose Uk)
                         (ws ! nat (self_d self - 2 - k))
                        = (Inr (ys ! nat k), ws ! Suc (nat (self_d self - 2 - k))))))"
proof -
  let ?d = "self_d self" and ?r = "self_root self"
  let ?m = "nat (?d - 1 - ?r)"
  from ComputeInterfaces_Inr [OF run] obtain Yl zl w1 Yr zr where
    left: "iterate (left_body alt dp self) (left_keys self) None w = (Inr (Yl, zl), w1)" and
    right: "iterate (right_body alt dp self) (right_keys self) Yl w1 = (Inr (Yr, zr), w')" and
    ys: "ys = zl @ rev zr"
    by blast
  have lkeys: "length (left_keys self) = nat ?r"
    by (simp add: left_keys_def length_py_range)
  have rkeys: "length (right_keys self) = ?m"
    by (simp add: right_keys_def length_py_range_down algebra_simps)
  have key: "right_keys self ! i = ?d - 2 - int i" if "i < ?m" for i
    using that by (simp add: right_keys_def nth_py_range_down algebra_simps)
  from iterate_Inr_trace [OF left] lkeys have lenl: "length zl = nat ?r"
    by simp
  from iterate_Inr_trace [OF right] rkeys obtain ws where
    lenr: "length zr = ?m" and
    ws: "length ws = Suc ?m" "ws ! 0 = w1" "ws ! ?m = w'" and
    tr: "\<forall>i<?m. right_body alt dp self (right_keys self ! i)
                   (if i = 0 then Yl else Some (zr ! (i - 1))) (ws ! i)
                 = (Inr (zr ! i), ws ! Suc i)"
    by auto
  have m: "0 < ?m" using root by simp
  have start: "if ?r = 0 then ws ! 0 = w else True"
    using left ws by (cases "?r = 0") (simp_all add: left_keys_def py_range_def)
  have len: "length ys = nat (?d - 1)"
    using ys lenl lenr root by simp
  have nth_ys: "ys ! nat k = zr ! nat (?d - 2 - k)" if "?r \<le> k" "k \<le> ?d - 2" for k
  proof -
    have "ys ! nat k = rev zr ! (nat k - nat ?r)"
      using that root ys lenl by (simp add: nth_append)
    also have "nat k - nat ?r < length zr"
      using that root lenr by simp
    then have "rev zr ! (nat k - nat ?r) = zr ! (length zr - Suc (nat k - nat ?r))"
      by (simp add: rev_nth)
    also have "length zr - Suc (nat k - nat ?r) = nat (?d - 2 - k)"
      using that root lenr by simp
    finally show ?thesis .
  qed
  have first: "\<exists>Uk Fk. ComponentTensor self (?d - 1) (Some 2) = Inr Uk \<and>
                 ComponentBasis self (?d - 1) = Inr Fk \<and>
                 alt Fk (np_transpose Uk) (self_tensordir self @ ''Interface'' @ fmt_d (?d - 2))
                    (ws ! 0)
                   = (Inr (ys ! nat (?d - 2)), ws ! 1)"
  proof -
    from tr m have "right_body alt dp self (right_keys self ! 0) Yl (ws ! 0)
                      = (Inr (zr ! 0), ws ! Suc 0)"
      by fastforce
    moreover have "right_keys self ! 0 = ?d - 2"
      using key [OF m] by simp
    moreover have "ys ! nat (?d - 2) = zr ! 0"
      using nth_ys [of "?d - 2"] root by simp
    ultimately have "right_body alt dp self (?d - 2) Yl (ws ! 0)
                       = (Inr (ys ! nat (?d - 2)), ws ! 1)"
      by simp
    from right_body_Inr [OF this] show ?thesis by (simp add: algebra_simps)
  qed
  have later: "\<exists>Uk Fk. ComponentTensor self (k + 1) (Some 2) = Inr Uk \<and>
                 ComponentBasis self (k + 1) = Inr Fk \<and>
                 dp Fk (ys ! nat (k + 1)) (self_tensordir self @ ''Interface'' @ fmt_d k)
                    (np_transpose Uk) (ws ! nat (?d - 2 - k))
                   = (Inr (ys ! nat k), ws ! Suc (nat (?d - 2 - k)))"
    if k: "?r \<le> k" "k < ?d - 2" for k
  proof -
    let ?i = "nat (?d - 2 - k)"
    from k have i: "?i < ?m" "?i \<noteq> 0" by simp_all
    have "right_keys self ! ?i = k"
      using key [OF i(1)] k by simp
    moreover from tr i have "right_body alt dp self (right_keys self ! ?i)
                               (Some (zr ! (?i - 1))) (ws ! ?i) = (Inr (zr ! ?i), ws ! Suc ?i)"
      by fastforce
    moreover have "ys ! nat k = zr ! ?i"
      using nth_ys [of k] k by simp
    moreover have "ys ! nat (k + 1) = zr ! (?i - 1)"
    proof -
      have "?i - 1 = nat (?d - 2 - (k + 1))" using k by simp
      then show ?thesis using nth_ys [of "k + 1"] k by simp
    qed
    ultimately have "right_body alt dp self k (Some (ys ! nat (k + 1))) (ws ! ?i)
                       = (Inr (ys ! nat k), ws ! Suc ?i)"
      by simp
    from right_body_Inr [OF this] k show ?thesis by auto
  qed
  from len ws start first later show ?thesis by blast
qed

lemma ex_self_run: "ComputeInterfaces sym_alt sym_dp ex_self 0 = (Inr ex_ys, 2)"
  by code_simp

lemma ex_self_root: "0 \<le> self_root ex_self" "self_root ex_self \<le> self_d ex_self - 2"
  by (simp_all add: ex_self_def)

theorem right_sweep_correct_witness:
  "0 \<le> self_root ex_self \<and> self_root ex_self \<le> self_d ex_self - 2 \<and>
   ComputeInterfaces sym_alt sym_dp ex_self 0 = (Inr ex_ys, 2) \<and>
   length ex_ys = nat (self_d ex_self - 1) \<and>
   (\<exists>ws. length ws = Suc (nat (self_d ex_self - 1 - self_root ex_self)) \<and>
      (if self_root ex_self = 0 then ws ! 0 = 0 else True) \<and>
      ws ! nat (self_d ex_self - 1 - self_root ex_self) = 2 \<and>
      (\<exists>Uk Fk. ComponentTensor ex_self (self_d ex_self - 1) (Some 2) = Inr Uk \<and>
           ComponentBasis ex_self (self_d ex_self - 1) = Inr Fk \<and>
           sym_alt Fk (np_transpose Uk)
              (self_tensordir ex_self @ ''Interface'' @ fmt_d (self_d ex_self - 2)) (ws ! 0)
             = (Inr (ex_ys ! nat (self_d ex_self - 2)), ws ! 1)) \<and>
      (\<forall>k. self_root ex_self \<le> k \<and> k < self_d ex_self - 2 \<longrightarrow>
           (\<exists>Uk Fk. ComponentTensor ex_self (k + 1) (Some 2) = Inr Uk \<and>
                ComponentBasis ex_self (k + 1) = Inr Fk \<and>
                sym_dp Fk (ex_ys ! nat (k + 1))
                   (self_tensordir ex_self @ ''Interface'' @ fmt_d k) (np_transpose Uk)
                   (ws ! nat (self_d ex_self - 2 - k))
                  = (Inr (ex_ys ! nat k), ws ! Suc (nat (self_d ex_self - 2 - k))))))"
  using right_sweep_correct [OF ex_self_root ex_self_run] ex_self_root ex_self_run
  by blast

text \<open>
  What a successful sweep consists of, in terms of the two loops as the source writes them.
\<close>

lemma ComputeInterfaces_loops:
  assumes "ComputeInterfaces alt dp self w = (Inr ys, w')"
  shows "\<exists>Yl il w1 Yr bl.
           left_loop alt dp self (left_keys self) None [] w = (Inr (Yl, il), w1) \<and>
           right_loop alt dp self (right_keys self) Yl [] w1 = (Inr (Yr, bl), w') \<and>
           ys = il @ bl"
  using assms unfolding ComputeInterfaces_def
  by (auto split: prod.splits sum.splits)

lemma left_loop_length:
  "left_loop alt dp self ks Yk il w = (Inr (Yk', il'), w') \<Longrightarrow>
   length il' = length il + length ks"
  by (induction ks arbitrary: Yk il w) (auto split: prod.splits sum.splits)

lemma right_loop_length:
  "right_loop alt dp self ks Yk bl w = (Inr (Yk', bl'), w') \<Longrightarrow>
   length bl' = length bl + length ks"
  by (induction ks arbitrary: Yk bl w) (auto split: prod.splits sum.splits)

text \<open>
  C4. Bond coverage. When \<open>0 \<le> root \<le> d - 1\<close> and \<open>ComputeInterfaces\<close> returns the list \<open>ys\<close>:
  the first loop ran over the keys \<open>0 \<le> k < root\<close> and returned one interface for each
  (\<open>il\<close>), the second loop ran over the keys \<open>root \<le> k \<le> d - 2\<close> and returned one interface
  for each (\<open>bl\<close>), no key belongs to both loops or occurs twice, together the keys are
  exactly \<open>0 .. d - 2\<close>, and \<open>ys = il @ bl\<close> has \<open>d - 1\<close> entries, so that every key holds
  exactly one interface. When \<open>root = 0\<close> (as the constructor sets it) the first loop has
  no key and all \<open>d - 1\<close> interfaces come from the second loop.
\<close>

theorem bond_coverage:
  assumes root: "0 \<le> self_root self" "self_root self \<le> self_d self - 1"
    and run: "ComputeInterfaces alt dp self w = (Inr ys, w')"
  shows "\<exists>Yl il w1 Yr bl.
           left_loop alt dp self (left_keys self) None [] w = (Inr (Yl, il), w1) \<and>
           right_loop alt dp self (right_keys self) Yl [] w1 = (Inr (Yr, bl), w') \<and>
           ys = il @ bl \<and>
           length il = length (left_keys self) \<and>
           length bl = length (right_keys self) \<and>
           length ys = nat (self_d self - 1) \<and>
           set (left_keys self) = {k. 0 \<le> k \<and> k < self_root self} \<and>
           set (right_keys self) = {k. self_root self \<le> k \<and> k \<le> self_d self - 2} \<and>
           set (left_keys self) \<inter> set (right_keys self) = {} \<and>
           distinct (left_keys self @ right_keys self) \<and>
           set (left_keys self @ right_keys self) = {k. 0 \<le> k \<and> k \<le> self_d self - 2} \<and>
           (if self_root self = 0
            then left_keys self = [] \<and> il = [] \<and> ys = bl \<and> length bl = nat (self_d self - 1)
            else True)"
proof -
  from ComputeInterfaces_loops [OF run] obtain Yl il w1 Yr bl where
    left: "left_loop alt dp self (left_keys self) None [] w = (Inr (Yl, il), w1)" and
    right: "right_loop alt dp self (right_keys self) Yl [] w1 = (Inr (Yr, bl), w')" and
    ys: "ys = il @ bl"
    by blast
  have lenl: "length il = length (left_keys self)"
    using left_loop_length [OF left] by simp
  have lenr: "length bl = length (right_keys self)"
    using right_loop_length [OF right] by simp
  have nl: "length (left_keys self) = nat (self_root self)"
    by (simp add: left_keys_def length_py_range)
  have nr: "length (right_keys self) = nat (self_d self - 1 - self_root self)"
    by (simp add: right_keys_def length_py_range_down algebra_simps)
  have len: "length ys = nat (self_d self - 1)"
    using ys lenl lenr nl nr root by simp
  have setl: "set (left_keys self) = {k. 0 \<le> k \<and> k < self_root self}"
    by (simp add: left_keys_def set_py_range)
  have setr: "set (right_keys self) = {k. self_root self \<le> k \<and> k \<le> self_d self - 2}"
    by (auto simp: right_keys_def set_py_range_down)
  have disj: "set (left_keys self) \<inter> set (right_keys self) = {}"
    unfolding setl setr by auto
  have dist: "distinct (left_keys self @ right_keys self)"
    using disj by (simp add: left_keys_def right_keys_def distinct_py_range distinct_py_range_down)
  have cover: "set (left_keys self @ right_keys self) = {k. 0 \<le> k \<and> k \<le> self_d self - 2}"
    using root unfolding set_append setl setr by auto
  have zero: "if self_root self = 0
              then left_keys self = [] \<and> il = [] \<and> ys = bl \<and> length bl = nat (self_d self - 1)
              else True"
  proof (cases "self_root self = 0")
    case True
    then have "left_keys self = []" by (simp add: left_keys_def py_range_def)
    with lenl ys len True show ?thesis by simp
  next
    case False
    then show ?thesis by simp
  qed
  from left right ys lenl lenr len setl setr disj dist cover zero show ?thesis
    by blast
qed

lemma ex_mid_run: "ComputeInterfaces sym_alt sym_dp ex_mid 0 = (Inr ex_mid_ys, 2)"
  by code_simp

lemma ex_mid_root: "0 \<le> self_root ex_mid" "self_root ex_mid \<le> self_d ex_mid - 1"
  by (simp_all add: ex_mid_def)

theorem bond_coverage_witness:
  "0 \<le> self_root ex_mid \<and> self_root ex_mid \<le> self_d ex_mid - 1 \<and>
   ComputeInterfaces sym_alt sym_dp ex_mid 0 = (Inr ex_mid_ys, 2) \<and>
   (\<exists>Yl il w1 Yr bl.
           left_loop sym_alt sym_dp ex_mid (left_keys ex_mid) None [] 0 = (Inr (Yl, il), w1) \<and>
           right_loop sym_alt sym_dp ex_mid (right_keys ex_mid) Yl [] w1 = (Inr (Yr, bl), 2) \<and>
           ex_mid_ys = il @ bl \<and>
           length il = length (left_keys ex_mid) \<and>
           length bl = length (right_keys ex_mid) \<and>
           length ex_mid_ys = nat (self_d ex_mid - 1) \<and>
           set (left_keys ex_mid) = {k. 0 \<le> k \<and> k < self_root ex_mid} \<and>
           set (right_keys ex_mid) = {k. self_root ex_mid \<le> k \<and> k \<le> self_d ex_mid - 2} \<and>
           set (left_keys ex_mid) \<inter> set (right_keys ex_mid) = {} \<and>
           distinct (left_keys ex_mid @ right_keys ex_mid) \<and>
           set (left_keys ex_mid @ right_keys ex_mid) = {k. 0 \<le> k \<and> k \<le> self_d ex_mid - 2} \<and>
           (if self_root ex_mid = 0
            then left_keys ex_mid = [] \<and> il = [] \<and> ex_mid_ys = bl \<and>
                 length bl = nat (self_d ex_mid - 1)
            else True))"
  using bond_coverage [OF ex_mid_root ex_mid_run] ex_mid_root ex_mid_run
  by blast

section \<open>Cache paths\<close>

text \<open>
  \<open>fmt_d k\<close> is the decimal numeral of \<open>k\<close>: reading it back gives \<open>k\<close>.
\<close>

lemma digits_table:
  "list_all (\<lambda>m. digit_value (''0123456789'' ! m) = m \<and> ''0123456789'' ! m \<noteq> CHR ''-'')
     [0..<10]"
  by code_simp

lemma digit_value_nth: "m < 10 \<Longrightarrow> digit_value (''0123456789'' ! m) = m"
  using digits_table by (simp add: list_all_iff)

lemma digit_not_minus: "m < 10 \<Longrightarrow> ''0123456789'' ! m \<noteq> CHR ''-''"
  using digits_table by (simp add: list_all_iff)

lemma read_digits_snoc: "read_digits (cs @ [c]) = 10 * read_digits cs + digit_value c"
  by (simp add: read_digits_def)

lemma read_dec_digits: "read_digits (dec_digits n) = n"
proof (induction n rule: dec_digits.induct)
  case (1 n)
  show ?case
  proof (cases "n < 10")
    case True
    then show ?thesis
      by (subst dec_digits.simps) (simp add: read_digits_def digit_value_nth)
  next
    case False
    with 1 have "read_digits (dec_digits (n div 10)) = n div 10" by simp
    with False show ?thesis
      by (subst dec_digits.simps) (simp add: read_digits_snoc digit_value_nth)
  qed
qed

lemma dec_digits_nonempty: "dec_digits n \<noteq> []"
  by (subst dec_digits.simps) simp

lemma hd_dec_digits: "hd (dec_digits n) \<noteq> CHR ''-''"
proof (induction n rule: dec_digits.induct)
  case (1 n)
  show ?case
  proof (cases "n < 10")
    case True
    then show ?thesis
      by (subst dec_digits.simps) (simp add: digit_not_minus)
  next
    case False
    with 1 have "hd (dec_digits (n div 10)) \<noteq> CHR ''-''" by simp
    with False show ?thesis
      by (subst dec_digits.simps) (simp add: dec_digits_nonempty)
  qed
qed

lemma read_fmt_d: "read_d (fmt_d k) = k"
proof (cases "k < 0")
  case True
  then show ?thesis
    by (simp add: read_d_def fmt_d_def read_dec_digits)
next
  case False
  obtain c cs where cs: "dec_digits (nat k) = c # cs"
    using dec_digits_nonempty [of "nat k"] by (cases "dec_digits (nat k)") auto
  with hd_dec_digits [of "nat k"] have "c \<noteq> CHR ''-''" by simp
  moreover have "read_digits (c # cs) = nat k"
    using read_dec_digits [of "nat k"] cs by simp
  ultimately show ?thesis
    using False cs by (simp add: read_d_def fmt_d_def)
qed

text \<open>
  A step that returns a reader has called one primitive, with the path of its key.
\<close>

lemma left_body_logged_path:
  "left_body (logged_alt alt) (logged_dp dp) self k Yk wl = (Inr Y, wl') \<Longrightarrow>
   snd wl' = snd wl @ [self_tensordir self @ ''Interface'' @ fmt_d k]"
  by (auto simp: left_body_def logged_alt_def logged_dp_def
      split: sum.splits option.splits if_splits prod.splits)

lemma right_body_logged_path:
  "right_body (logged_alt alt) (logged_dp dp) self k Yk wl = (Inr Y, wl') \<Longrightarrow>
   snd wl' = snd wl @ [self_tensordir self @ ''Interface'' @ fmt_d k]"
  by (auto simp: right_body_def logged_alt_def logged_dp_def
      split: sum.splits option.splits if_splits prod.splits)

lemma iterate_log:
  assumes body: "\<And>k Yk wl Y wl'. body k Yk wl = (Inr Y, wl') \<Longrightarrow> snd wl' = snd wl @ [p k]"
  shows "iterate body ks Yk wl = (Inr r, wl') \<Longrightarrow> snd wl' = snd wl @ map p ks"
proof (induction ks arbitrary: Yk wl r)
  case Nil
  then show ?case by simp
next
  case (Cons k ks)
  from Cons.prems obtain Y wl1 r' where
    step: "body k Yk wl = (Inr Y, wl1)" and
    rest: "iterate body ks (Some Y) wl1 = (Inr r', wl')"
    by (auto split: prod.splits sum.splits)
  from body [OF step] Cons.IH [OF rest] show ?case by simp
qed

text \<open>
  Whatever the outcome of a step, it has called at most one primitive, with the path of
  its key; so the paths a sweep has passed to the primitives, failed or not, are those of
  an initial part of its keys.
\<close>

lemma iterate_log_prefix:
  assumes any: "\<And>k Yk wl. snd (snd (body k Yk wl)) = snd wl \<or>
                  snd (snd (body k Yk wl)) = snd wl @ [p k]"
    and ok: "\<And>k Yk wl Y wl'. body k Yk wl = (Inr Y, wl') \<Longrightarrow> snd wl' = snd wl @ [p k]"
  shows "\<exists>n. n \<le> length ks \<and>
           snd (snd (iterate body ks Yk wl)) = snd wl @ map p (take n ks)"
proof (induction ks arbitrary: Yk wl)
  case Nil
  then show ?case by simp
next
  case (Cons k ks)
  obtain r wl1 where step: "body k Yk wl = (r, wl1)" by (cases "body k Yk wl")
  show ?case
  proof (cases r)
    case (Inl e)
    with step have it: "iterate body (k # ks) Yk wl = (Inl e, wl1)" by simp
    from any [of k Yk wl] step have "snd wl1 = snd wl \<or> snd wl1 = snd wl @ [p k]" by simp
    then show ?thesis
    proof
      assume "snd wl1 = snd wl"
      with it show ?thesis by (intro exI [of _ 0]) simp
    next
      assume "snd wl1 = snd wl @ [p k]"
      with it show ?thesis by (intro exI [of _ 1]) simp
    qed
  next
    case (Inr Y)
    with step ok have log1: "snd wl1 = snd wl @ [p k]" by blast
    from Cons.IH [of "Some Y" wl1] obtain n where
      n: "n \<le> length ks" "snd (snd (iterate body ks (Some Y) wl1)) = snd wl1 @ map p (take n ks)"
      by blast
    have "snd (iterate body (k # ks) Yk wl) = snd (iterate body ks (Some Y) wl1)"
      using step Inr by (auto split: prod.splits sum.splits)
    with n log1 show ?thesis by (intro exI [of _ "Suc n"]) simp
  qed
qed

lemma left_body_logged_any:
  "snd (snd (left_body (logged_alt alt) (logged_dp dp) self k Yk wl)) = snd wl \<or>
   snd (snd (left_body (logged_alt alt) (logged_dp dp) self k Yk wl))
     = snd wl @ [self_tensordir self @ ''Interface'' @ fmt_d k]"
  by (auto simp: left_body_def logged_alt_def logged_dp_def
      split: sum.splits option.splits prod.splits)

lemma right_body_logged_any:
  "snd (snd (right_body (logged_alt alt) (logged_dp dp) self k Yk wl)) = snd wl \<or>
   snd (snd (right_body (logged_alt alt) (logged_dp dp) self k Yk wl))
     = snd wl @ [self_tensordir self @ ''Interface'' @ fmt_d k]"
  by (auto simp: right_body_def logged_alt_def logged_dp_def
      split: sum.splits option.splits prod.splits)

lemma ComputeInterfaces_iterate:
  "ComputeInterfaces alt dp self w =
     (case iterate (left_body alt dp self) (left_keys self) None w of
        (Inl e, w1) \<Rightarrow> (Inl e, w1)
      | (Inr (Yl, zl), w1) \<Rightarrow>
          (case iterate (right_body alt dp self) (right_keys self) Yl w1 of
             (Inl e, w2) \<Rightarrow> (Inl e, w2)
           | (Inr (Yr, zr), w2) \<Rightarrow> (Inr (zl @ rev zr), w2)))"
  unfolding ComputeInterfaces_def left_loop_iterate right_loop_iterate
  by (auto split: prod.splits sum.splits)

lemma logged_paths_prefix:
  "\<exists>n. n \<le> length (left_keys self @ right_keys self) \<and>
       snd (snd (ComputeInterfaces (logged_alt alt) (logged_dp dp) self (w, []))) =
         map (\<lambda>k. self_tensordir self @ ''Interface'' @ fmt_d k)
             (take n (left_keys self @ right_keys self))"
proof -
  let ?p = "\<lambda>k. self_tensordir self @ ''Interface'' @ fmt_d k"
  let ?lb = "left_body (logged_alt alt) (logged_dp dp) self"
  let ?rb = "right_body (logged_alt alt) (logged_dp dp) self"
  let ?L = "iterate ?lb (left_keys self) None (w, [])"
  have "\<exists>n. n \<le> length (left_keys self) \<and>
          snd (snd ?L) = snd (w, []) @ map ?p (take n (left_keys self))"
  proof (rule iterate_log_prefix)
    show "snd (snd (?lb k Yk wl)) = snd wl \<or> snd (snd (?lb k Yk wl)) = snd wl @ [?p k]"
      for k Yk wl
      by (rule left_body_logged_any)
    show "snd wl' = snd wl @ [?p k]" if "?lb k Yk wl = (Inr Y, wl')" for k Yk wl Y wl'
      using that by (rule left_body_logged_path)
  qed
  then obtain n where n: "n \<le> length (left_keys self)"
    "snd (snd ?L) = map ?p (take n (left_keys self))"
    by auto
  obtain r wl1 where L: "?L = (r, wl1)" by (cases ?L)
  show ?thesis
  proof (cases r)
    case (Inl e)
    with L have "ComputeInterfaces (logged_alt alt) (logged_dp dp) self (w, []) = (Inl e, wl1)"
      by (simp add: ComputeInterfaces_iterate)
    with n L show ?thesis by (intro exI [of _ n]) simp
  next
    case (Inr a)
    obtain Yl zl where a: "a = (Yl, zl)" by (cases a)
    from L Inr a have Lok: "?L = (Inr (Yl, zl), wl1)" by simp
    from iterate_log [OF left_body_logged_path Lok]
    have log1: "snd wl1 = map ?p (left_keys self)" by simp
    have "\<exists>m. m \<le> length (right_keys self) \<and>
            snd (snd (iterate ?rb (right_keys self) Yl wl1))
              = snd wl1 @ map ?p (take m (right_keys self))"
    proof (rule iterate_log_prefix)
      show "snd (snd (?rb k Yk wl)) = snd wl \<or> snd (snd (?rb k Yk wl)) = snd wl @ [?p k]"
        for k Yk wl
        by (rule right_body_logged_any)
      show "snd wl' = snd wl @ [?p k]" if "?rb k Yk wl = (Inr Y, wl')" for k Yk wl Y wl'
        using that by (rule right_body_logged_path)
    qed
    then obtain m where m: "m \<le> length (right_keys self)"
      "snd (snd (iterate ?rb (right_keys self) Yl wl1)) = snd wl1 @ map ?p (take m (right_keys self))"
      by auto
    have "snd (ComputeInterfaces (logged_alt alt) (logged_dp dp) self (w, []))
            = snd (iterate ?rb (right_keys self) Yl wl1)"
      using Lok by (auto simp: ComputeInterfaces_iterate split: prod.splits sum.splits)
    with m log1 show ?thesis
      by (intro exI [of _ "length (left_keys self) + m"]) simp
  qed
qed

text \<open>
  The example object, as the constructor returns it.
\<close>

lemma ex_ranks: "extract_ranks ex_U (py_range 2) [0, 0] = Inr [2, 3]"
  by (simp add: py_range_def ex_U_def py_index_def py_setitem_def norm_index_def
        float64_of_nat_def upt_rec)

lemma ex_obj_constructed:
  "BlockTTtensor_init sym_alt sym_dp ex_U ex_basis None 0 = (Inr ex_obj, 2)"
proof -
  have "py_index ex_U 0 = Inr \<lparr>nd_shape = [1, 2, 2, 2], nd_data = [1, 2, 3, 4, 5, 6, 7, 8]\<rparr>"
    by (simp add: ex_U_def py_index_def norm_index_def)
  moreover have "py_index [1, 2, 2, 2 :: nat] 3 = Inr 2"
    by (simp add: py_index_def norm_index_def)
  moreover have "length ex_U = 3"
    by (simp add: ex_U_def)
  moreover have "replicate 2 (0::nat) = [0, 0]"
    by (simp add: numeral_2_eq_2)
  ultimately show ?thesis
    using ex_ranks ex_self_run
    by (simp add: BlockTTtensor_init_def ex_self_def ex_obj_def)
qed

text \<open>
  C10. Cache paths. Run with primitives that log the path they are given, a successful
  sweep has logged, in the order of its steps (the keys of the first loop, then those of
  the second), exactly the strings \<open>tensordir @ ''Interface'' @ fmt_d k\<close>: the configured
  directory, the word \<open>Interface\<close> and the decimal numeral of the key, with no separator
  in between, and the same form in both loops. \<open>fmt_d k\<close> reads back as \<open>k\<close>. The directory
  of a constructed object is the argument \<^verbatim>\<open>tensordir\<close>, and \<open>''./''\<close> when the constructor was
  called without it.
\<close>

theorem cache_path_scheme:
  "(ComputeInterfaces (logged_alt alt) (logged_dp dp) self (w, []) = (Inr ys, (w', paths)) \<longrightarrow>
      paths = map (\<lambda>k. self_tensordir self @ ''Interface'' @ fmt_d k)
                (left_keys self @ right_keys self)) \<and>
   (\<exists>n. n \<le> length (left_keys self @ right_keys self) \<and>
        snd (snd (ComputeInterfaces (logged_alt alt) (logged_dp dp) self (w, []))) =
          map (\<lambda>k. self_tensordir self @ ''Interface'' @ fmt_d k)
              (take n (left_keys self @ right_keys self))) \<and>
   read_d (fmt_d k) = k \<and>
   (BlockTTtensor_init alt' dp' U basis dir w0 = (Inr obj, w0') \<longrightarrow>
      self_tensordir obj = (case dir of None \<Rightarrow> ''./'' | Some t \<Rightarrow> t))"
proof -
  let ?p = "\<lambda>k. self_tensordir self @ ''Interface'' @ fmt_d k"
  have "paths = map ?p (left_keys self @ right_keys self)"
    if run: "ComputeInterfaces (logged_alt alt) (logged_dp dp) self (w, []) = (Inr ys, (w', paths))"
  proof -
    from ComputeInterfaces_Inr [OF run] obtain Yl zl wl1 Yr zr where
      left: "iterate (left_body (logged_alt alt) (logged_dp dp) self) (left_keys self) None (w, [])
               = (Inr (Yl, zl), wl1)" and
      right: "iterate (right_body (logged_alt alt) (logged_dp dp) self) (right_keys self) Yl wl1
               = (Inr (Yr, zr), (w', paths))"
      by blast
    have "snd wl1 = map ?p (left_keys self)"
      using iterate_log [OF left_body_logged_path left] by simp
    moreover have "paths = snd wl1 @ map ?p (right_keys self)"
      using iterate_log [OF right_body_logged_path right] by simp
    ultimately show ?thesis by simp
  qed
  moreover have "self_tensordir obj = (case dir of None \<Rightarrow> ''./'' | Some t \<Rightarrow> t)"
    if "BlockTTtensor_init alt' dp' U basis dir w0 = (Inr obj, w0')"
    using that by (auto simp: BlockTTtensor_init_def Let_def split: sum.splits prod.splits)
  moreover note logged_paths_prefix [where self = self and alt = alt and dp = dp and w = w]
    and read_fmt_d [of k]
  ultimately show ?thesis
    by blast
qed

lemma ex_mid_logged_run:
  "ComputeInterfaces (logged_alt sym_alt) (logged_dp sym_dp) ex_mid (0, [])
     = (Inr ex_mid_ys, (2, [''./Interface0'', ''./Interface1'']))"
  by code_simp

theorem cache_path_scheme_witness:
  "ComputeInterfaces (logged_alt sym_alt) (logged_dp sym_dp) ex_mid (0, [])
     = (Inr ex_mid_ys, (2, [''./Interface0'', ''./Interface1''])) \<and>
   [''./Interface0'', ''./Interface1'']
     = map (\<lambda>k. self_tensordir ex_mid @ ''Interface'' @ fmt_d k)
           (left_keys ex_mid @ right_keys ex_mid) \<and>
   read_d (fmt_d 1) = 1 \<and>
   BlockTTtensor_init sym_alt sym_dp ex_U ex_basis None 0 = (Inr ex_obj, 2) \<and>
   self_tensordir ex_obj = ''./''"
  using cache_path_scheme [where alt = sym_alt and dp = sym_dp and self = ex_mid and w = 0
      and ys = ex_mid_ys and w' = 2 and paths = "[''./Interface0'', ''./Interface1'']" and k = 1
      and alt' = sym_alt and dp' = sym_dp and U = ex_U and basis = ex_basis and dir = None
      and ?w0.0 = 0 and obj = ex_obj and ?w0' = 2]
    ex_mid_logged_run ex_obj_constructed
  by simp

section \<open>Running the sweep again\<close>

text \<open>
  Two runs of the sweep on the same object, with primitives that agree on what they return
  and keep a relation \<open>R\<close> between the outside states, return the same and end in related
  states.
\<close>

lemma iterate_related:
  assumes body: "\<And>k Yk w1 w2. R w1 w2 \<Longrightarrow>
                   fst (body k Yk w1) = fst (body' k Yk w2) \<and>
                   R (snd (body k Yk w1)) (snd (body' k Yk w2))"
  shows "R w1 w2 \<Longrightarrow>
         fst (iterate body ks Yk w1) = fst (iterate body' ks Yk w2) \<and>
         R (snd (iterate body ks Yk w1)) (snd (iterate body' ks Yk w2))"
proof (induction ks arbitrary: Yk w1 w2)
  case Nil
  then show ?case by simp
next
  case (Cons k ks)
  obtain r1 v1 where b1: "body k Yk w1 = (r1, v1)" by (cases "body k Yk w1")
  obtain r2 v2 where b2: "body' k Yk w2 = (r2, v2)" by (cases "body' k Yk w2")
  from body [OF Cons.prems, of k Yk] b1 b2 have eq: "r2 = r1" and rel: "R v1 v2"
    by simp_all
  show ?case
  proof (cases r1)
    case (Inl e)
    with eq b1 b2 rel show ?thesis by simp
  next
    case (Inr Y)
    from Cons.IH [OF rel, of "Some Y"] show ?thesis
      unfolding iterate.simps b1 b2 eq Inr
      by (auto split: prod.splits sum.splits)
  qed
qed

lemma ComputeInterfaces_related:
  assumes alt: "\<And>F U p w1 w2. R w1 w2 \<Longrightarrow>
             fst (alt F U p w1) = fst (alt' F U p w2) \<and> R (snd (alt F U p w1)) (snd (alt' F U p w2))"
    and dp: "\<And>A B p U w1 w2. R w1 w2 \<Longrightarrow>
             fst (dp A B p U w1) = fst (dp' A B p U w2) \<and>
             R (snd (dp A B p U w1)) (snd (dp' A B p U w2))"
    and R: "R w1 w2"
  shows "fst (ComputeInterfaces alt dp self w1) = fst (ComputeInterfaces alt' dp' self w2) \<and>
         R (snd (ComputeInterfaces alt dp self w1)) (snd (ComputeInterfaces alt' dp' self w2))"
proof -
  let ?lb = "left_body alt dp self" and ?lb' = "left_body alt' dp' self"
  let ?rb = "right_body alt dp self" and ?rb' = "right_body alt' dp' self"
  have lb: "fst (?lb k Yk v1) = fst (?lb' k Yk v2) \<and> R (snd (?lb k Yk v1)) (snd (?lb' k Yk v2))"
    if "R v1 v2" for k Yk v1 v2
    using alt dp that by (auto simp: left_body_def split: sum.splits option.splits)
  have rb: "fst (?rb k Yk v1) = fst (?rb' k Yk v2) \<and> R (snd (?rb k Yk v1)) (snd (?rb' k Yk v2))"
    if "R v1 v2" for k Yk v1 v2
    using alt dp that by (auto simp: right_body_def split: sum.splits option.splits)
  let ?L1 = "iterate ?lb (left_keys self) None w1"
  let ?L2 = "iterate ?lb' (left_keys self) None w2"
  have L: "fst ?L1 = fst ?L2 \<and> R (snd ?L1) (snd ?L2)"
    using iterate_related [of R ?lb ?lb', OF lb R] by simp
  show ?thesis
  proof (cases "fst ?L1")
    case (Inl e)
    with L show ?thesis
      by (auto simp: ComputeInterfaces_iterate split: prod.splits sum.splits)
  next
    case (Inr a)
    obtain Yl zl where a: "a = (Yl, zl)" by (cases a)
    let ?R1 = "iterate ?rb (right_keys self) Yl (snd ?L1)"
    let ?R2 = "iterate ?rb' (right_keys self) Yl (snd ?L2)"
    from L have "R (snd ?L1) (snd ?L2)" by simp
    then have "fst ?R1 = fst ?R2 \<and> R (snd ?R1) (snd ?R2)"
      using iterate_related [of R ?rb ?rb', OF rb] by simp
    with L Inr a show ?thesis
      by (auto simp: ComputeInterfaces_iterate split: prod.splits sum.splits)
  qed
qed

text \<open>
  Logging the paths does not change what the sweep returns or does to the outside state.
\<close>

lemma logged_run:
  "fst (ComputeInterfaces (logged_alt alt) (logged_dp dp) self (w, l))
     = fst (ComputeInterfaces alt dp self w) \<and>
   fst (snd (ComputeInterfaces (logged_alt alt) (logged_dp dp) self (w, l)))
     = snd (ComputeInterfaces alt dp self w)"
  by (rule ComputeInterfaces_related [where R = "\<lambda>wl w'. fst wl = w'"])
     (auto simp: logged_alt_def logged_dp_def split: prod.splits)

text \<open>
  C8. Idempotence. With deterministic primitives (what they return depends on their
  arguments only), what \<open>ComputeInterfaces\<close> returns on an object does not depend on the
  outside state it is run in; in particular a second run, started in the state the first
  run left behind (the cache filled), returns the same list of interfaces or raises the
  same exception, and it passes the same cache paths to the primitives in the same order.
  The sweep does not change the object, so the component arrays and basis sources of the
  second run are those of the first.
\<close>

theorem sweep_idempotent:
  assumes "deterministic_alt alt" and "deterministic_dp dp"
  shows "fst (ComputeInterfaces alt dp self w2) = fst (ComputeInterfaces alt dp self w1) \<and>
         fst (ComputeInterfaces alt dp self (snd (ComputeInterfaces alt dp self w1)))
           = fst (ComputeInterfaces alt dp self w1) \<and>
         snd (snd (ComputeInterfaces (logged_alt alt) (logged_dp dp) self (w2, [])))
           = snd (snd (ComputeInterfaces (logged_alt alt) (logged_dp dp) self (w1, [])))"
proof -
  have plain: "fst (ComputeInterfaces alt dp self v) = fst (ComputeInterfaces alt dp self v')"
    for v v'
    using ComputeInterfaces_related [where R = "\<lambda>_ _. True" and alt = alt and alt' = alt
        and dp = dp and dp' = dp and ?w1.0 = v and ?w2.0 = v' and self = self] assms
    unfolding deterministic_alt_def deterministic_dp_def
    by simp
  have la: "fst (logged_alt alt F U p v) = fst (logged_alt alt F U p v') \<and>
            snd (snd (logged_alt alt F U p v)) = snd (snd (logged_alt alt F U p v'))"
    if "snd v = snd v'" for F U p and v v' :: "'c \<times> string list"
  proof -
    from assms(1) have "fst (alt F U p (fst v)) = fst (alt F U p (fst v'))"
      unfolding deterministic_alt_def by blast
    with that show ?thesis
      by (cases "alt F U p (fst v)"; cases "alt F U p (fst v')") (simp add: logged_alt_def)
  qed
  have ld: "fst (logged_dp dp A B p U v) = fst (logged_dp dp A B p U v') \<and>
            snd (snd (logged_dp dp A B p U v)) = snd (snd (logged_dp dp A B p U v'))"
    if "snd v = snd v'" for A B p U and v v' :: "'c \<times> string list"
  proof -
    from assms(2) have "fst (dp A B p U (fst v)) = fst (dp A B p U (fst v'))"
      unfolding deterministic_dp_def by blast
    with that show ?thesis
      by (cases "dp A B p U (fst v)"; cases "dp A B p U (fst v')") (simp add: logged_dp_def)
  qed
  have "snd (snd (ComputeInterfaces (logged_alt alt) (logged_dp dp) self (w2, [])))
          = snd (snd (ComputeInterfaces (logged_alt alt) (logged_dp dp) self (w1, [])))"
    using ComputeInterfaces_related [where R = "\<lambda>v v'. snd v = snd v'"
        and alt = "logged_alt alt" and alt' = "logged_alt alt"
        and dp = "logged_dp dp" and dp' = "logged_dp dp"
        and ?w1.0 = "(w2, [])" and ?w2.0 = "(w1, [])" and self = self, OF la ld]
    by simp
  with plain show ?thesis by blast
qed

lemma sym_deterministic: "deterministic_alt sym_alt" "deterministic_dp sym_dp"
  by (simp_all add: deterministic_alt_def deterministic_dp_def sym_alt_def sym_dp_def)

theorem sweep_idempotent_witness:
  "deterministic_alt sym_alt \<and> deterministic_dp sym_dp \<and>
   fst (ComputeInterfaces sym_alt sym_dp ex_self 0) = Inr ex_ys \<and>
   fst (ComputeInterfaces sym_alt sym_dp ex_self 7) = fst (ComputeInterfaces sym_alt sym_dp ex_self 0) \<and>
   fst (ComputeInterfaces sym_alt sym_dp ex_self (snd (ComputeInterfaces sym_alt sym_dp ex_self 0)))
     = fst (ComputeInterfaces sym_alt sym_dp ex_self 0) \<and>
   snd (snd (ComputeInterfaces (logged_alt sym_alt) (logged_dp sym_dp) ex_self (7, [])))
     = snd (snd (ComputeInterfaces (logged_alt sym_alt) (logged_dp sym_dp) ex_self (0, [])))"
  using sweep_idempotent [OF sym_deterministic, of ex_self 7 0] sym_deterministic ex_self_run
  by simp

section \<open>The sweep succeeds on well-formed objects\<close>

text \<open>
  The theorems above describe the list a sweep returns. It does return one, and raises
  nothing, whenever \<open>0 \<le> root \<le> d - 1\<close>, the object has \<open>d\<close> components and \<open>d\<close> basis
  sources, every component but the root has three axes, and the primitives are total.
\<close>

lemma iterate_succeeds:
  assumes body: "\<And>k Yk w. k \<in> set ks \<Longrightarrow> k = k0 \<or> Yk \<noteq> None \<Longrightarrow>
                   \<exists>Y w'. body k Yk w = (Inr Y, w')"
    and start: "ks = [] \<or> hd ks = k0 \<or> Yk \<noteq> None"
  shows "\<exists>Yk' zs w'. iterate body ks Yk w = (Inr (Yk', zs), w')"
  using assms
proof (induction ks arbitrary: Yk w)
  case Nil
  then show ?case by simp
next
  case (Cons k ks)
  from Cons.prems(2) have "k = k0 \<or> Yk \<noteq> None" by simp
  with Cons.prems(1) [of k Yk w] obtain Y w1 where step: "body k Yk w = (Inr Y, w1)"
    by auto
  have "\<exists>Yk' zs w'. iterate body ks (Some Y) w1 = (Inr (Yk', zs), w')"
    by (rule Cons.IH) (use Cons.prems(1) in auto)
  with step show ?case by auto
qed

lemma ComponentTensor_three_axes:
  assumes "0 \<le> k" "k < int (length (self_U self))" "k \<noteq> self_root self"
    and "length (nd_shape (self_U self ! nat k)) = 3"
  shows "\<exists>Uk. ComponentTensor self k (Some 1) = Inr Uk" "\<exists>Uk. ComponentTensor self k (Some 2) = Inr Uk"
proof -
  from assms(4) obtain a b c where "nd_shape (self_U self ! nat k) = [a, b, c]"
    by (auto simp: length_Suc_conv numeral_3_eq_3)
  with assms(1-3) show "\<exists>Uk. ComponentTensor self k (Some 1) = Inr Uk"
    "\<exists>Uk. ComponentTensor self k (Some 2) = Inr Uk"
    by (simp_all add: ComponentTensor_def GetRankTriple_def py_index_coordinate left_dims_def
        right_dims_def np_reshape_def)
qed

lemma ComputeInterfaces_succeeds:
  assumes root: "0 \<le> self_root self" "self_root self \<le> self_d self - 1"
    and len: "self_d self \<le> int (length (self_U self))" "self_d self \<le> int (length (self_basis self))"
    and axes: "\<And>k. 0 \<le> k \<Longrightarrow> k < self_d self \<Longrightarrow> k \<noteq> self_root self \<Longrightarrow>
                 length (nd_shape (self_U self ! nat k)) = 3"
    and prims: "total_alt alt" "total_dp dp"
  shows "\<exists>ys w'. ComputeInterfaces alt dp self w = (Inr ys, w')"
proof -
  have lb: "\<exists>Y w'. left_body alt dp self k Yk v = (Inr Y, w')"
    if "k \<in> set (left_keys self)" "k = 0 \<or> Yk \<noteq> None" for k Yk v
  proof -
    from that(1) have k: "0 \<le> k" "k < self_root self"
      by (simp_all add: left_keys_def set_py_range)
    with root len have "k < int (length (self_U self))" "k \<noteq> self_root self" "k < self_d self"
      by simp_all
    with ComponentTensor_three_axes(1) [of k self] axes [of k] k
    obtain Uk where Uk: "ComponentTensor self k (Some 1) = Inr Uk" by auto
    have Fk: "ComponentBasis self k = Inr (self_basis self ! nat k)"
      using k root len by (simp add: ComponentBasis_def py_index_coordinate)
    show ?thesis
    proof (cases "k = 0")
      case True
      with prims(1) Uk Fk show ?thesis
        unfolding total_alt_def left_body_def by simp
    next
      case False
      with that(2) obtain Y0 where "Yk = Some Y0" by auto
      with prims(2) Uk Fk False show ?thesis
        unfolding total_dp_def left_body_def by simp
    qed
  qed
  have rb: "\<exists>Y w'. right_body alt dp self k Yk v = (Inr Y, w')"
    if "k \<in> set (right_keys self)" "k = self_d self - 2 \<or> Yk \<noteq> None" for k Yk v
  proof -
    from that(1) have k: "self_root self \<le> k" "k \<le> self_d self - 2"
      by (simp_all add: right_keys_def set_py_range_down)
    with root len have k1: "0 \<le> k + 1" "k + 1 < int (length (self_U self))"
      "k + 1 \<noteq> self_root self" "k + 1 < self_d self" "k + 1 < int (length (self_basis self))"
      by simp_all
    with ComponentTensor_three_axes(2) [of "k + 1" self] axes [of "k + 1"]
    obtain Uk where Uk: "ComponentTensor self (k + 1) (Some 2) = Inr Uk" by auto
    have Fk: "ComponentBasis self (k + 1) = Inr (self_basis self ! nat (k + 1))"
      using k1 by (simp add: ComponentBasis_def py_index_coordinate)
    show ?thesis
    proof (cases "k = self_d self - 2")
      case True
      with prims(1) Uk Fk show ?thesis
        unfolding total_alt_def right_body_def by simp
    next
      case False
      with that(2) obtain Y0 where "Yk = Some Y0" by auto
      with prims(2) Uk Fk False show ?thesis
        unfolding total_dp_def right_body_def by simp
    qed
  qed
  have "left_keys self = [] \<or> hd (left_keys self) = 0 \<or> (None :: 'b option) \<noteq> None"
    by (cases "nat (self_root self)") (simp_all add: left_keys_def py_range_def upt_rec)
  from iterate_succeeds [where ks = "left_keys self" and ?k0.0 = 0 and Yk = None
      and body = "left_body alt dp self", OF lb this]
  obtain Yl zl w1 where
    left: "iterate (left_body alt dp self) (left_keys self) None w = (Inr (Yl, zl), w1)"
    by blast
  have "right_keys self = [] \<or> hd (right_keys self) = self_d self - 2 \<or> Yl \<noteq> None"
  proof (cases "right_keys self = []")
    case False
    then have "0 < length (right_keys self)" by simp
    then have "0 < nat (self_d self - 2 - (self_root self - 1))"
      unfolding right_keys_def length_py_range_down .
    from nth_py_range_down [OF this] False show ?thesis
      by (simp add: right_keys_def hd_conv_nth)
  qed simp
  from iterate_succeeds [where ks = "right_keys self" and ?k0.0 = "self_d self - 2" and Yk = Yl
      and body = "right_body alt dp self", OF rb this]
  obtain Yr zr w2 where
    right: "iterate (right_body alt dp self) (right_keys self) Yl w1 = (Inr (Yr, zr), w2)"
    by blast
  from left right show ?thesis
    unfolding ComputeInterfaces_iterate by simp
qed

section \<open>Queries and the setter\<close>

text \<open>
  C6. Unfolding. For a coordinate \<open>k\<close> other than the root whose component has shape
  \<open>(a, b, c)\<close>, \<^verbatim>\<open>ComponentTensor(k, order=1)\<close> returns the entries of the component, in the
  same row-major order, under the shape \<open>(a * b, c)\<close>, and \<^verbatim>\<open>order=2\<close> returns them under
  \<open>(a, b * c)\<close>. For the root coordinate the component is returned as it is stored, whatever
  \<open>order\<close> is.
\<close>

theorem ComponentTensor_unfolding:
  "(0 \<le> k \<and> k < int (length (self_U self)) \<and> k \<noteq> self_root self \<and>
    nd_shape (self_U self ! nat k) = [a, b, c] \<longrightarrow>
      ComponentTensor self k (Some 1)
        = Inr \<lparr>nd_shape = [a * b, c], nd_data = nd_data (self_U self ! nat k)\<rparr> \<and>
      ComponentTensor self k (Some 2)
        = Inr \<lparr>nd_shape = [a, b * c], nd_data = nd_data (self_U self ! nat k)\<rparr>) \<and>
   (0 \<le> k \<and> k < int (length (self_U self)) \<and> k = self_root self \<longrightarrow>
      ComponentTensor self k order = Inr (self_U self ! nat k))"
proof (intro conjI impI)
  assume k: "0 \<le> k \<and> k < int (length (self_U self)) \<and> k \<noteq> self_root self \<and>
             nd_shape (self_U self ! nat k) = [a, b, c]"
  let ?A = "self_U self ! nat k"
  from k have component: "py_index (self_U self) k = Inr ?A"
    by (simp add: py_index_coordinate)
  with k have dims: "GetRankTriple self k = Inr [a, b, c]"
    by (simp add: GetRankTriple_def)
  have left: "np_reshape ?A [a * b, c] = Inr \<lparr>nd_shape = [a * b, c], nd_data = nd_data ?A\<rparr>"
    using k by (simp add: np_reshape_def)
  have right: "np_reshape ?A [a, b * c] = Inr \<lparr>nd_shape = [a, b * c], nd_data = nd_data ?A\<rparr>"
    using k by (simp add: np_reshape_def mult.assoc)
  show "ComponentTensor self k (Some 1) = Inr \<lparr>nd_shape = [a * b, c], nd_data = nd_data ?A\<rparr>"
    using k component dims left by (simp add: ComponentTensor_def left_dims_def)
  show "ComponentTensor self k (Some 2) = Inr \<lparr>nd_shape = [a, b * c], nd_data = nd_data ?A\<rparr>"
    using k component dims right by (simp add: ComponentTensor_def right_dims_def)
next
  assume k: "0 \<le> k \<and> k < int (length (self_U self)) \<and> k = self_root self"
  then have "py_index (self_U self) k = Inr (self_U self ! nat k)"
    by (simp add: py_index_coordinate)
  with k show "ComponentTensor self k order = Inr (self_U self ! nat k)"
    by (simp add: ComponentTensor_def Let_def)
qed

theorem ComponentTensor_unfolding_witness:
  "0 \<le> (1::int) \<and> 1 < int (length (self_U ex_self)) \<and> 1 \<noteq> self_root ex_self \<and>
   nd_shape (self_U ex_self ! nat 1) = [2, 2, 3] \<and>
   ComponentTensor ex_self 1 (Some 1)
     = Inr \<lparr>nd_shape = [4, 3], nd_data = [1, 2, 3, 4, 5, 6, 7, 8, 9, 10, 11, 12]\<rparr> \<and>
   ComponentTensor ex_self 1 (Some 2)
     = Inr \<lparr>nd_shape = [2, 6], nd_data = [1, 2, 3, 4, 5, 6, 7, 8, 9, 10, 11, 12]\<rparr> \<and>
   0 = self_root ex_self \<and>
   ComponentTensor ex_self 0 (Some 1)
     = Inr \<lparr>nd_shape = [1, 2, 2, 2], nd_data = [1, 2, 3, 4, 5, 6, 7, 8]\<rparr> \<and>
   ComponentTensor ex_self 0 (Some 2)
     = Inr \<lparr>nd_shape = [1, 2, 2, 2], nd_data = [1, 2, 3, 4, 5, 6, 7, 8]\<rparr>"
  using ComponentTensor_unfolding [of 1 ex_self 2 2 3]
    ComponentTensor_unfolding [of 0 ex_self _ _ _ "Some 1"]
    ComponentTensor_unfolding [of 0 ex_self _ _ _ "Some 2"]
  by (simp add: ex_self_def ex_U_def)

text \<open>
  Outside the root, a component with a fourth axis cannot be unfolded unless that axis has
  length 1 (or the array is empty): \<^verbatim>\<open>np.reshape\<close> raises \<open>ValueError\<close>.
\<close>

lemma ComponentTensor_four_axes:
  assumes "0 \<le> k" "k < int (length (self_U self))" "k \<noteq> self_root self"
    and "nd_shape (self_U self ! nat k) = [a, b, c, m]" and "a * b * c * m \<noteq> a * b * c"
  shows "ComponentTensor self k (Some 1) = Inl ValueError"
    and "ComponentTensor self k (Some 2) = Inl ValueError"
  using assms
  by (simp_all add: ComponentTensor_def GetRankTriple_def py_index_coordinate left_dims_def
      right_dims_def np_reshape_def mult.assoc)

text \<open>
  C7. Frame of the setter. For a coordinate \<open>k\<close>, \<^verbatim>\<open>SetComponentTensor(k, U')\<close> returns the
  object with \<open>U'\<close> at position \<open>k\<close> of the component list and every other component as
  before; the rank vector, the root, the basis sources, the interfaces, \<open>d\<close>, \<open>M\<close> and the
  cache directory are unchanged.
\<close>

theorem SetComponentTensor_frame:
  assumes "0 \<le> k" and "k < int (length (self_U self))"
  shows "\<exists>self'. SetComponentTensor self k U' = Inr self' \<and>
           self_U self' = (self_U self)[nat k := U'] \<and>
           self_R self' = self_R self \<and>
           self_root self' = self_root self \<and>
           self_basis self' = self_basis self \<and>
           self_interfaces self' = self_interfaces self \<and>
           self_d self' = self_d self \<and>
           self_M self' = self_M self \<and>
           self_tensordir self' = self_tensordir self"
proof -
  from assms have "norm_index (length (self_U self)) k = Inr (nat k)"
    by (simp add: norm_index_def)
  then have "py_setitem (self_U self) k U' = Inr ((self_U self)[nat k := U'])"
    by (simp add: py_setitem_def)
  then have "SetComponentTensor self k U' = Inr (self\<lparr>self_U := (self_U self)[nat k := U']\<rparr>)"
    by (simp add: SetComponentTensor_def)
  then show ?thesis
    by simp
qed

theorem SetComponentTensor_frame_witness:
  "0 \<le> (1::int) \<and> 1 < int (length (self_U ex_self)) \<and>
   (\<exists>self'. SetComponentTensor ex_self 1 \<lparr>nd_shape = [5, 2, 7], nd_data = replicate 70 0\<rparr> = Inr self' \<and>
           self_U self' = (self_U ex_self)[nat 1 := \<lparr>nd_shape = [5, 2, 7], nd_data = replicate 70 0\<rparr>] \<and>
           self_R self' = self_R ex_self \<and>
           self_root self' = self_root ex_self \<and>
           self_basis self' = self_basis ex_self \<and>
           self_interfaces self' = self_interfaces ex_self \<and>
           self_d self' = self_d ex_self \<and>
           self_M self' = self_M ex_self \<and>
           self_tensordir self' = self_tensordir ex_self) \<and>
   self_R ex_self = [2, 3]"
proof -
  have h: "0 \<le> (1::int)" "1 < int (length (self_U ex_self))"
    by (simp_all add: ex_self_def ex_U_def)
  from SetComponentTensor_frame [OF h] h show ?thesis
    by (simp add: ex_self_def)
qed

text \<open>
  With any index, negative ones included, the setter either raises \<open>IndexError\<close> or replaces
  one component and nothing else; the ranks \<^verbatim>\<open>GetRanks\<close> reports afterwards are those
  reported before.
\<close>

lemma SetComponentTensor_any:
  "SetComponentTensor self k U' = Inl IndexError \<or>
   (\<exists>i. i < length (self_U self) \<and>
        SetComponentTensor self k U' = Inr (self\<lparr>self_U := (self_U self)[i := U']\<rparr>))"
proof (cases "norm_index (length (self_U self)) k")
  case (Inl e)
  then have "e = IndexError"
    by (auto simp: norm_index_def split: if_splits)
  with Inl show ?thesis
    by (simp add: SetComponentTensor_def py_setitem_def)
next
  case (Inr i)
  then have "i < length (self_U self)"
    by (auto simp: norm_index_def split: if_splits)
  moreover from Inr have "SetComponentTensor self k U'
                            = Inr (self\<lparr>self_U := (self_U self)[i := U']\<rparr>)"
    by (simp add: SetComponentTensor_def py_setitem_def)
  ultimately show ?thesis by blast
qed

lemma GetRanks_after_set:
  "SetComponentTensor self k U' = Inr self' \<Longrightarrow> GetRanks self' ko = GetRanks self ko"
  by (auto simp: SetComponentTensor_def GetRanks_def Let_def split: sum.splits)

text \<open>
  \<^verbatim>\<open>GetRanks(k)\<close> with a bond index \<open>k\<close> returns the entry \<open>k\<close> of the rank vector. The test
  \<^verbatim>\<open>k>=0 or k<=(self.d-2)\<close> holds for every integer \<open>k\<close> once \<open>d \<ge> 1\<close>, so the branch that
  returns the whole vector is never taken on a constructed object.
\<close>

lemma GetRanks_bond:
  "0 \<le> k \<Longrightarrow> k < int (length (self_R self)) \<Longrightarrow>
   GetRanks self (Some k) = Inr (Rank (self_R self ! nat k))"
  by (simp add: GetRanks_def py_index_coordinate)

lemma GetRanks_never_vector:
  "1 \<le> self_d self \<Longrightarrow> GetRanks self ko \<noteq> Inr (RankVector v)"
  by (auto simp: GetRanks_def Let_def split: option.splits sum.splits)

text \<open>
  C5. The second half of the claim fails on the code: on the object constructed from
  \<open>ex_U\<close>, whose rank vector is \<open>[2, 3]\<close>, \<^verbatim>\<open>GetRanks()\<close> without an argument returns the
  single rank \<open>3\<close> (the entry at index \<open>-1\<close>), not the vector.
\<close>

theorem GetRanks_without_argument:
  "BlockTTtensor_init sym_alt sym_dp ex_U ex_basis None 0 = (Inr ex_obj, 2) \<and>
   self_R ex_obj = [2, 3] \<and>
   GetRanks ex_obj None = Inr (Rank 3)"
  using ex_obj_constructed
  by (simp add: GetRanks_def ex_obj_def ex_self_def py_index_def norm_index_def)

section \<open>The constructor\<close>

text \<open>
  C9. The constructor reads \<^verbatim>\<open>np.shape(self.U[0])[3]\<close> first. When the first component has
  fewer than four axes, construction raises \<open>IndexError\<close> and leaves the outside state as it
  was, whatever the primitives are: no primitive has been called (with logging primitives
  the log is still empty). When the first component has four axes, both \<^verbatim>\<open>self.U[0]\<close> and the
  index 3 of its shape are in range.
\<close>

theorem init_reads_fourth_axis:
  "(length (nd_shape U0) < 4 \<longrightarrow>
      BlockTTtensor_init alt dp (U0 # Us) basis dir w = (Inl IndexError, w) \<and>
      BlockTTtensor_init (logged_alt alt) (logged_dp dp) (U0 # Us) basis dir (w, [])
        = (Inl IndexError, (w, []))) \<and>
   (length (nd_shape U0) = 4 \<longrightarrow>
      py_index (U0 # Us) 0 = Inr U0 \<and> py_index (nd_shape U0) 3 = Inr (nd_shape U0 ! 3))"
proof (intro conjI impI)
  have first: "py_index (U0 # Us) 0 = Inr U0"
    by (simp add: py_index_def norm_index_def)
  {
    assume "length (nd_shape U0) < 4"
    then have axis: "py_index (nd_shape U0) 3 = Inl IndexError"
      by (simp add: py_index_def norm_index_def)
    from first axis show "BlockTTtensor_init alt dp (U0 # Us) basis dir w = (Inl IndexError, w)"
      by (simp add: BlockTTtensor_init_def)
    from first axis
    show "BlockTTtensor_init (logged_alt alt) (logged_dp dp) (U0 # Us) basis dir (w, [])
            = (Inl IndexError, (w, []))"
      by (simp add: BlockTTtensor_init_def)
  }
  {
    assume "length (nd_shape U0) = 4"
    then show "py_index (nd_shape U0) 3 = Inr (nd_shape U0 ! 3)"
      by (simp add: py_index_def norm_index_def)
    from first show "py_index (U0 # Us) 0 = Inr U0" .
  }
qed

lemma flat_U_first: "length (nd_shape (hd flat_U)) < 4" "flat_U = hd flat_U # tl flat_U"
  by (simp_all add: flat_U_def)

lemma ex_U_first: "length (nd_shape (hd ex_U)) = 4" "ex_U = hd ex_U # tl ex_U"
  by (simp_all add: ex_U_def)

theorem init_reads_fourth_axis_witness:
  "length (nd_shape (hd flat_U)) < 4 \<and>
   BlockTTtensor_init sym_alt sym_dp flat_U bad_basis None 0 = (Inl IndexError, 0) \<and>
   BlockTTtensor_init (logged_alt sym_alt) (logged_dp sym_dp) flat_U bad_basis None (0, [])
     = (Inl IndexError, (0, [])) \<and>
   length (nd_shape (hd ex_U)) = 4 \<and>
   py_index ex_U 0 = Inr (hd ex_U) \<and>
   py_index (nd_shape (hd ex_U)) 3 = Inr (nd_shape (hd ex_U) ! 3)"
  using init_reads_fourth_axis [of "hd flat_U" sym_alt sym_dp "tl flat_U" bad_basis None 0]
    init_reads_fourth_axis [of "hd ex_U" sym_alt sym_dp "tl ex_U"]
    flat_U_first ex_U_first
  by simp

text \<open>
  The sweep on the pre-object of \<open>bad_U\<close>, with logging primitives.
\<close>

lemma bad_ranks: "extract_ranks bad_U (py_range 1) [0] = Inr [2]"
  by (simp add: py_range_def bad_U_def py_index_def py_setitem_def norm_index_def
        float64_of_nat_def)

lemma bad_self_run:
  "ComputeInterfaces (logged_alt sym_alt) (logged_dp sym_dp) bad_self (0, [])
     = (Inr bad_ys, (1, [''./Interface0'']))"
  by code_simp

text \<open>
  C3, as stated, fails on the code. The components \<open>bad_U\<close> disagree on their shared rank
  (right rank 2 of component 0, left rank 3 of component 1), and construction neither
  raises nor stops before the streamed computation: it returns an object, with rank
  vector \<open>[2]\<close>, after calling the linear-transform primitive with the path
  \<open>''./Interface0''\<close>.
\<close>

theorem rank_mismatch_not_rejected:
  "nd_shape (bad_U ! 0) ! 2 = 2 \<and> nd_shape (bad_U ! 1) ! 0 = 3 \<and>
   BlockTTtensor_init (logged_alt sym_alt) (logged_dp sym_dp) bad_U bad_basis None (0, [])
     = (Inr (bad_self\<lparr>self_interfaces := bad_ys\<rparr>), (1, [''./Interface0'']))"
proof -
  have "py_index bad_U 0 = Inr \<lparr>nd_shape = [1, 2, 2, 2], nd_data = [1, 2, 3, 4, 5, 6, 7, 8]\<rparr>"
    by (simp add: bad_U_def py_index_def norm_index_def)
  moreover have "py_index [1, 2, 2, 2 :: nat] 3 = Inr 2"
    by (simp add: py_index_def norm_index_def)
  moreover have "length bad_U = 2"
    by (simp add: bad_U_def)
  ultimately have "BlockTTtensor_init (logged_alt sym_alt) (logged_dp sym_dp) bad_U bad_basis None
                     (0, [])
                   = (Inr (bad_self\<lparr>self_interfaces := bad_ys\<rparr>), (1, [''./Interface0'']))"
    using bad_ranks bad_self_run
    by (simp add: BlockTTtensor_init_def bad_self_def)
  then show ?thesis
    by (simp add: bad_U_def)
qed

text \<open>
  The loop that fills the rank vector reads the third axis of each component but the
  last, and nothing else.
\<close>

lemma extract_ranks_upt:
  assumes "length R = n" and "n \<le> length U"
    and "\<forall>k<n. 3 \<le> length (nd_shape (U ! k))" and "i \<le> n"
  shows "extract_ranks U (map int [i..<n]) R
           = Inr (take i R @ map (\<lambda>k. float64_of_nat (nd_shape (U ! k) ! 2)) [i..<n])"
  using assms
proof (induction "n - i" arbitrary: i R)
  case 0
  then show ?case by simp
next
  case (Suc m)
  then have i: "i < n" by simp
  with Suc.prems have axes: "3 \<le> length (nd_shape (U ! i))" by blast
  have upt: "[i..<n] = i # [Suc i..<n]" using i by (simp add: upt_conv_Cons)
  let ?v = "float64_of_nat (nd_shape (U ! i) ! 2)"
  have step: "extract_ranks U (map int [i..<n]) R = extract_ranks U (map int [Suc i..<n]) (R[i := ?v])"
    using i axes Suc.prems(1,2)
    by (simp add: upt py_index_def py_setitem_def norm_index_def)
  have "extract_ranks U (map int [Suc i..<n]) (R[i := ?v])
          = Inr (take (Suc i) (R[i := ?v]) @ map (\<lambda>k. float64_of_nat (nd_shape (U ! k) ! 2)) [Suc i..<n])"
    using Suc.hyps(2) Suc.prems i by (intro Suc.hyps(1)) simp_all
  moreover have "take (Suc i) (R[i := ?v]) = take i R @ [?v]"
    using i Suc.prems(1) by (simp add: take_Suc_conv_app_nth)
  ultimately show ?case using step upt by simp
qed

text \<open>
  C3, amended. The rank vector is derived from the third axis of each component alone
  and is not compared with the first axis of the right neighbour. When the first component
  has at least four axes and every component but the last has at least three, construction
  raises nothing of its own: it sets \<open>R[k]\<close> to the float of \<^verbatim>\<open>U[k].shape[2]\<close> for
  \<open>k = 0 .. d - 2\<close>, runs the sweep on that object and returns what the sweep returns.
\<close>

theorem init_rank_vector:
  assumes "U \<noteq> []" and "4 \<le> length (nd_shape (U ! 0))"
    and "\<forall>k<length U - 1. 3 \<le> length (nd_shape (U ! k))"
  shows "BlockTTtensor_init alt dp U basis dir w =
           (let self = \<lparr>self_U = U, self_basis = basis,
                         self_tensordir = (case dir of None \<Rightarrow> ''./'' | Some t \<Rightarrow> t),
                         self_d = int (length U), self_root = 0,
                         self_M = nd_shape (U ! 0) ! 3,
                         self_R = map (\<lambda>k. float64_of_nat (nd_shape (U ! k) ! 2))
                                      [0..<length U - 1],
                         self_interfaces = []\<rparr>
            in case ComputeInterfaces alt dp self w of
                 (Inl e, w') \<Rightarrow> (Inl e, w')
               | (Inr ys, w') \<Rightarrow> (Inr (self\<lparr>self_interfaces := ys\<rparr>), w'))"
proof -
  have n: "nat (int (length U) - 1) = length U - 1" by simp
  have "extract_ranks U (py_range (int (length U) - 1)) (replicate (nat (int (length U) - 1)) 0)
          = Inr (map (\<lambda>k. float64_of_nat (nd_shape (U ! k) ! 2)) [0..<length U - 1])"
    unfolding py_range_def n
    using extract_ranks_upt [of "replicate (length U - 1) 0" "length U - 1" U 0] assms(3)
    by simp
  moreover have "py_index U 0 = Inr (U ! 0)"
    using assms(1) by (simp add: py_index_def norm_index_def)
  moreover have "py_index (nd_shape (U ! 0)) 3 = Inr (nd_shape (U ! 0) ! 3)"
    using assms(2) by (simp add: py_index_def norm_index_def)
  ultimately show ?thesis
    by (simp add: BlockTTtensor_init_def Let_def)
qed

theorem init_rank_vector_witness:
  "bad_U \<noteq> [] \<and> 4 \<le> length (nd_shape (bad_U ! 0)) \<and> length bad_U - 1 = 1 \<and>
   3 \<le> length (nd_shape (bad_U ! 0)) \<and>
   nd_shape (bad_U ! 0) ! 2 = 2 \<and> nd_shape (bad_U ! 1) ! 0 = 3 \<and>
   BlockTTtensor_init sym_alt sym_dp bad_U bad_basis None 0 =
     (case ComputeInterfaces sym_alt sym_dp bad_self 0 of
        (Inl e, w') \<Rightarrow> (Inl e, w')
      | (Inr ys, w') \<Rightarrow> (Inr (bad_self\<lparr>self_interfaces := ys\<rparr>), w'))"
proof -
  have h: "bad_U \<noteq> []" "4 \<le> length (nd_shape (bad_U ! 0))"
    "\<forall>k<length bad_U - 1. 3 \<le> length (nd_shape (bad_U ! k))"
    by (simp_all add: bad_U_def)
  have pre: "\<lparr>self_U = bad_U, self_basis = bad_basis,
               self_tensordir = (case None of None \<Rightarrow> ''./'' | Some t \<Rightarrow> t),
               self_d = int (length bad_U), self_root = 0, self_M = nd_shape (bad_U ! 0) ! 3,
               self_R = map (\<lambda>k. float64_of_nat (nd_shape (bad_U ! k) ! 2)) [0..<length bad_U - 1],
               self_interfaces = []\<rparr> = bad_self"
    by (simp add: bad_self_def bad_U_def float64_of_nat_def)
  have "BlockTTtensor_init sym_alt sym_dp bad_U bad_basis None 0 =
          (case ComputeInterfaces sym_alt sym_dp bad_self 0 of
             (Inl e, w') \<Rightarrow> (Inl e, w')
           | (Inr ys, w') \<Rightarrow> (Inr (bad_self\<lparr>self_interfaces := ys\<rparr>), w'))"
    using init_rank_vector [OF h, of sym_alt sym_dp bad_basis None 0]
    unfolding Let_def pre .
  then show ?thesis
    by (simp add: bad_U_def)
qed

end
